theory Spec2Isabelle
  imports Main
begin

section \<open>Instants, locations and the civil calendar\<close>

text \<open>
  The Go programs read the clock and do calendar arithmetic through the standard
  \<^verbatim>\<open>time\<close> package. An instant is kept as its count of nanoseconds since the Unix
  epoch together with the location it is displayed in. All integers are unbounded: the
  64-bit range of Go's \<^verbatim>\<open>int\<close> is not reached by the calendar arithmetic on
  instants of the present era.

  A location is what its \<^verbatim>\<open>lookup\<close> answers: for an instant, in seconds since the Unix
  epoch, the offset in force (seconds east of UTC) and the bounds
  \<open>start \<le> sec < end\<close> of the period during which that offset stays in force. The
  bounds \<open>alpha\<close> and \<open>omega\<close> stand for a period without a beginning or without an end.
\<close>

type_synonym Location = "int \<Rightarrow> int \<times> int \<times> int"

definition lookup :: "Location \<Rightarrow> int \<Rightarrow> int \<times> int \<times> int" where
  "lookup l sec = l sec"

definition alpha :: int where
  "alpha = - (2 ^ 63)"

definition omega :: int where
  "omega = 2 ^ 63 - 1"

definition UTC :: Location where
  "UTC = (\<lambda>sec. (0, alpha, omega))"

definition FixedZone :: "int \<Rightarrow> Location" where
  "FixedZone offset = (\<lambda>sec. (offset, alpha, omega))"

record Time =
  unixNano :: int
  Location :: Location

definition unixSec :: "Time \<Rightarrow> int" where
  "unixSec t = unixNano t div 1000000000"

definition Nanosecond :: "Time \<Rightarrow> int" where
  "Nanosecond t = unixNano t mod 1000000000"

text \<open>Seconds of local wall-clock time since 1970-01-01 00:00:00 (Go's \<^verbatim>\<open>t.abs()\<close>,
  shifted to the Unix epoch): the instant moved by the offset in force at it.\<close>

definition absSec :: "Time \<Rightarrow> int" where
  "absSec t = unixSec t + fst (lookup (Location t) (unixSec t))"

definition After :: "Time \<Rightarrow> Time \<Rightarrow> bool" where
  "After t u = (unixNano u < unixNano t)"

text \<open>The zero \<^verbatim>\<open>time.Time\<close> is January 1 of year 1, 00:00:00 UTC.\<close>

definition IsZero :: "Time \<Rightarrow> bool" where
  "IsZero t = (unixNano t = - 62135596800 * 1000000000)"

datatype Weekday = Sunday | Monday | Tuesday | Wednesday | Thursday | Friday | Saturday

definition weekday_of_int :: "int \<Rightarrow> Weekday" where
  "weekday_of_int n =
     (if n = 0 then Sunday else if n = 1 then Monday else if n = 2 then Tuesday
      else if n = 3 then Wednesday else if n = 4 then Thursday
      else if n = 5 then Friday else Saturday)"

text \<open>1970-01-01 was a Thursday.\<close>

definition Weekday :: "Time \<Rightarrow> Weekday" where
  "Weekday t = weekday_of_int (((absSec t + 4 * 86400) mod (7 * 86400)) div 86400)"

definition isLeap :: "int \<Rightarrow> bool" where
  "isLeap year = (year mod 4 = 0 \<and> (year mod 100 \<noteq> 0 \<or> year mod 400 = 0))"

definition daysBefore :: "int \<Rightarrow> int" where
  "daysBefore m = [0, 31, 59, 90, 120, 151, 181, 212, 243, 273, 304, 334, 365] ! nat m"

text \<open>Days from 1970-01-01 to January 1 of the given year.\<close>

definition daysSinceEpoch :: "int \<Rightarrow> int" where
  "daysSinceEpoch year =
     (let y = year - 1 in 365 * y + y div 4 - y div 100 + y div 400 - 719162)"

text \<open>
  Year and day of the year of a day number (days since 1970-01-01), by cutting off
  400-year, 100-year, 4-year and 1-year cycles counted from 0001-01-01.
\<close>

definition absYearDay :: "int \<Rightarrow> int \<times> int" where
  "absYearDay days =
     (let d0 = days + 719162;
          n400 = d0 div 146097;
          d1 = d0 - 146097 * n400;
          q100 = d1 div 36524;
          n100 = q100 - q100 div 4;
          d2 = d1 - 36524 * n100;
          n4 = d2 div 1461;
          d3 = d2 - 1461 * n4;
          q1 = d3 div 365;
          n1 = q1 - q1 div 4;
          yday = d3 - 365 * n1;
          year = 400 * n400 + 100 * n100 + 4 * n4 + n1 + 1
      in (year, yday))"

text \<open>Year, month (1 to 12) and day of the month of a day number.\<close>

definition absDate :: "int \<Rightarrow> int \<times> int \<times> int" where
  "absDate days =
     (let (year, yday) = absYearDay days
      in if isLeap year \<and> yday = 31 + 29 - 1 then (year, 2, 29)
         else
           let day = (if isLeap year \<and> yday > 31 + 29 - 1 then yday - 1 else yday);
               month = day div 31;
               end = daysBefore (month + 1);
               (month', begin) =
                  (if day \<ge> end then (month + 1, end) else (month, daysBefore month))
           in (year, month' + 1, day - begin + 1))"

definition Year :: "Time \<Rightarrow> int" where
  "Year t = fst (absDate (absSec t div 86400))"

definition Month :: "Time \<Rightarrow> int" where
  "Month t = fst (snd (absDate (absSec t div 86400)))"

definition Day :: "Time \<Rightarrow> int" where
  "Day t = snd (snd (absDate (absSec t div 86400)))"

definition Hour :: "Time \<Rightarrow> int" where
  "Hour t = (absSec t mod 86400) div 3600"

definition Minute :: "Time \<Rightarrow> int" where
  "Minute t = (absSec t mod 3600) div 60"

definition Second :: "Time \<Rightarrow> int" where
  "Second t = absSec t mod 60"

text \<open>Go's \<^verbatim>\<open>norm\<close>: carry the part of \<open>lo\<close> outside \<open>[0, base)\<close> into \<open>hi\<close>.\<close>

definition norm :: "int \<Rightarrow> int \<Rightarrow> int \<Rightarrow> int \<times> int" where
  "norm hi lo base =
     (let (hi1, lo1) =
            (if lo < 0
             then (let n = (- lo - 1) div base + 1 in (hi - n, lo + n * base))
             else (hi, lo))
      in if lo1 \<ge> base
         then (let n = lo1 div base in (hi1 + n, lo1 - n * base))
         else (hi1, lo1))"

text \<open>
  The last step of \<^verbatim>\<open>time.Date\<close> turns the wall-clock seconds \<open>unix\<close> into an instant.
  It looks the location up at \<open>unix\<close> read as an instant; when the instant that the
  answer leads to lies outside the period of that answer, it takes the offset in force
  at that instant instead.
\<close>

definition zone_adjust :: "Location \<Rightarrow> int \<Rightarrow> int" where
  "zone_adjust loc unix =
     (let (offset, start, end) = lookup loc unix
      in if offset \<noteq> 0
         then (let utc = unix - offset;
                   offset1 = (if utc < start \<or> utc \<ge> end then fst (lookup loc utc) else offset)
               in unix - offset1)
         else unix)"

text \<open>\<^verbatim>\<open>time.Date\<close>: fields out of range are normalised, the day number is assembled
  from the year, the month table, the leap day and the day of the month, and the
  wall-clock seconds are turned into an instant of the location.\<close>

definition Date :: "int \<Rightarrow> int \<Rightarrow> int \<Rightarrow> int \<Rightarrow> int \<Rightarrow> int \<Rightarrow> int \<Rightarrow> Location \<Rightarrow> Time" where
  "Date year month day hour minute sec nsec loc =
     (let (year1, m) = norm year (month - 1) 12;
          month1 = m + 1;
          (sec1, nsec1) = norm sec nsec 1000000000;
          (min1, sec2) = norm minute sec1 60;
          (hour1, min2) = norm hour min1 60;
          (day1, hour2) = norm day hour1 24;
          d = daysSinceEpoch year1 + daysBefore (month1 - 1)
              + (if isLeap year1 \<and> month1 \<ge> 3 then 1 else 0) + (day1 - 1);
          abs = d * 86400 + hour2 * 3600 + min2 * 60 + sec2;
          unix = zone_adjust loc abs
      in \<lparr>unixNano = unix * 1000000000 + nsec1, Location = loc\<rparr>)"

definition AddDate :: "Time \<Rightarrow> int \<Rightarrow> int \<Rightarrow> int \<Rightarrow> Time" where
  "AddDate t years months days =
     Date (Year t + years) (Month t + months) (Day t + days)
          (Hour t) (Minute t) (Second t) (Nanosecond t) (Location t)"

text \<open>
  Properties of locations. An instant lies \<open>within\<close> a period when it is not before
  its start and is before its end. A location is \<open>regular\<close> when every instant lies
  within the period that the lookup names for it, the lookup answers the same throughout
  that period, an offset is at most a day, and a period bounded on both sides lasts more
  than two days. A wall-clock time, in seconds, is \<open>shown\<close> by a location when some
  instant reads it there; the times that a forward change of the clock skips are not.
\<close>

definition within :: "int \<Rightarrow> int \<Rightarrow> int \<Rightarrow> bool" where
  "within start end v = ((start = alpha \<or> start \<le> v) \<and> (end = omega \<or> v < end))"

definition regular :: "Location \<Rightarrow> bool" where
  "regular loc =
     (\<forall>u. case lookup loc u of
            (offset, start, end) \<Rightarrow>
              within start end u \<and> \<bar>offset\<bar> \<le> 86400
              \<and> (start \<noteq> alpha \<and> end \<noteq> omega \<longrightarrow> 2 * 86400 < end - start)
              \<and> (\<forall>v. within start end v \<longrightarrow> lookup loc v = lookup loc u))"

definition shown :: "Location \<Rightarrow> int \<Rightarrow> bool" where
  "shown loc wall = (\<exists>u. u + fst (lookup loc u) = wall)"

section \<open>Errors and the outcome of a request\<close>

text \<open>
  A Go \<^verbatim>\<open>error\<close> is its message. \<open>Errorf prefix err\<close> is
  \<^verbatim>\<open>fmt.Errorf(prefix + "%v", err)\<close>.
\<close>

datatype error = Error string

fun Errorf :: "string \<Rightarrow> error \<Rightarrow> error" where
  "Errorf prefix (Error msg) = Error (prefix @ msg)"

text \<open>
  Every request of the programs goes through the same four library calls, each of which
  can fail: \<^verbatim>\<open>http.NewRequest\<close>, \<^verbatim>\<open>client.Do\<close>, \<^verbatim>\<open>io.ReadAll\<close> and
  \<^verbatim>\<open>json.Unmarshal\<close>. The remote service is a function from what is asked to the
  outcome of these four steps.
\<close>

datatype 'a fetched =
    NewRequestFailed error
  | DoFailed error
  | ReadAllFailed error
  | UnmarshalFailed error
  | Decoded 'a

text \<open>A Go run-time panic.\<close>

datatype panic = SliceBoundsOutOfRange

text \<open>\<^verbatim>\<open>s[:n]\<close> on a string: the first \<open>n\<close> bytes, or a panic when the string is
  shorter.\<close>

definition slice_to :: "string \<Rightarrow> nat \<Rightarrow> panic + string" where
  "slice_to s n = (if length s < n then Inl SliceBoundsOutOfRange else Inr (take n s))"

section \<open>Package main: repositories and the activity filter (github.go)\<close>

text \<open>
  A struct is a record; the field \<^verbatim>\<open>F\<close> of the struct \<^verbatim>\<open>T\<close> is written \<open>T_F\<close>.
\<close>

record Repo =
  Repo_ID :: int
  Repo_Name :: string
  Repo_Private :: bool
  Repo_HTMLURL :: string
  Repo_URL :: string
  Repo_Language :: string
  Repo_CreatedAt :: Time
  Repo_UpdatedAt :: Time

record user =
  user_username :: string
  user_apiKey :: string

record GitHub =
  GitHub_user :: user
  GitHub_repos :: "Repo list"

text \<open>The loop of \<^verbatim>\<open>GetRecentlyUpdatedRepos\<close> over \<^verbatim>\<open>gh.repos\<close>, with the slice
  \<^verbatim>\<open>recentRepos\<close> it appends to.\<close>

fun recentRepos_loop :: "Time \<Rightarrow> Repo list \<Rightarrow> Repo list \<Rightarrow> Repo list" where
  "recentRepos_loop cutoffDate [] recentRepos = recentRepos"
| "recentRepos_loop cutoffDate (repo # rest) recentRepos =
     recentRepos_loop cutoffDate rest
       (if After (Repo_UpdatedAt repo) cutoffDate then recentRepos @ [repo] else recentRepos)"

text \<open>
  \<^verbatim>\<open>GetRecentlyUpdatedRepos\<close> has a pointer receiver: the model returns the slice
  together with the receiver as the call leaves it. \<open>now\<close> is the reading of
  \<^verbatim>\<open>time.Now()\<close>.
\<close>

definition GetRecentlyUpdatedRepos :: "GitHub \<Rightarrow> Time \<Rightarrow> int \<Rightarrow> Repo list \<times> GitHub" where
  "GetRecentlyUpdatedRepos gh now daysBack =
     (if daysBack \<le> 0 then (GitHub_repos gh, gh)
      else
        let cutoffDate = AddDate now 0 0 (- daysBack)
        in (recentRepos_loop cutoffDate (GitHub_repos gh) [], gh))"

section \<open>Package main: commits of the selected repositories (github.go)\<close>

record Commit =
  Commit_SHA :: string
  Commit_Message :: string
  Commit_Author :: string
  Commit_Date :: Time
  Commit_RepoName :: string
  Commit_HTMLURL :: string

record CommitMessage =
  CommitMessage_Message :: string

record CommitAuthor =
  CommitAuthor_Name :: string
  CommitAuthor_Email :: string
  CommitAuthor_Date :: string

record CommitDetails =
  CommitDetails_Message :: CommitMessage
  CommitDetails_Author :: CommitAuthor

text \<open>The field \<^verbatim>\<open>Author\<close> of a \<^verbatim>\<open>CommitResponse\<close> is a pointer to a struct with the
  single field \<^verbatim>\<open>Login\<close>: \<open>None\<close> is the nil pointer.\<close>

record CommitResponse =
  CommitResponse_SHA :: string
  CommitResponse_Commit :: CommitDetails
  CommitResponse_HTMLURL :: string
  CommitResponse_Author :: "string option"

text \<open>\<^verbatim>\<open>strings.Split(s, sep)[0]\<close> for a non-empty separator: the text before the first
  occurrence of \<open>sep\<close>, all of \<open>s\<close> when there is none.\<close>

fun split_first :: "string \<Rightarrow> string \<Rightarrow> string" where
  "split_first [] sep = []"
| "split_first (c # cs) sep =
     (if take (length sep) (c # cs) = sep then [] else c # split_first cs sep)"

definition zeroTime :: Time where
  "zeroTime = \<lparr>unixNano = - 62135596800 * 1000000000, Location = UTC\<rparr>"

text \<open>What \<^verbatim>\<open>GetLatestCommits\<close> asks of the hosting platform: the commits of
  \<^verbatim>\<open>/repos/{username}/{name}/commits\<close> since an instant.\<close>

record latest_query =
  latest_username :: string
  latest_name :: string
  latest_since :: Time

text \<open>The surroundings of \<^verbatim>\<open>GetLatestCommits\<close>: the platform's answer to a query, and
  \<^verbatim>\<open>time.Parse(time.RFC3339, _)\<close> (\<open>None\<close> when the text does not parse).\<close>

record latest_env =
  latest_get :: "latest_query \<Rightarrow> CommitResponse list fetched"
  parse_RFC3339 :: "string \<Rightarrow> Time option"

text \<open>The inner loop, over the decoded commits of one repository.\<close>

fun latest_commits_loop ::
  "latest_env \<Rightarrow> string \<Rightarrow> CommitResponse list \<Rightarrow> Commit list \<Rightarrow> panic + Commit list" where
  "latest_commits_loop env name [] allCommits = Inr allCommits"
| "latest_commits_loop env name (c # rest) allCommits =
     (let date = (case parse_RFC3339 env (CommitAuthor_Date (CommitDetails_Author (CommitResponse_Commit c))) of
                    Some t \<Rightarrow> t | None \<Rightarrow> zeroTime);
          author = (case CommitResponse_Author c of
                      None \<Rightarrow> CommitAuthor_Name (CommitDetails_Author (CommitResponse_Commit c))
                    | Some login \<Rightarrow> login)
      in case slice_to (CommitResponse_SHA c) 8 of
           Inl p \<Rightarrow> Inl p
         | Inr sha \<Rightarrow>
             latest_commits_loop env name rest
               (allCommits @
                [\<lparr>Commit_SHA = sha,
                  Commit_Message = CommitMessage_Message (CommitDetails_Message (CommitResponse_Commit c)),
                  Commit_Author = author,
                  Commit_Date = date,
                  Commit_RepoName = name,
                  Commit_HTMLURL = CommitResponse_HTMLURL c\<rparr>]))"

text \<open>The outer loop, over the selected choice strings. A request that fails at any of
  its four steps is skipped.\<close>

fun latest_repos_loop ::
  "latest_env \<Rightarrow> GitHub \<Rightarrow> Time \<Rightarrow> string list \<Rightarrow> Commit list \<Rightarrow> panic + Commit list" where
  "latest_repos_loop env gh since [] allCommits = Inr allCommits"
| "latest_repos_loop env gh since (repoName # rest) allCommits =
     (let name = split_first repoName '' (''
      in case latest_get env \<lparr>latest_username = user_username (GitHub_user gh),
                               latest_name = name, latest_since = since\<rparr> of
           Decoded commits \<Rightarrow>
             (case latest_commits_loop env name commits allCommits of
                Inl p \<Rightarrow> Inl p
              | Inr allCommits' \<Rightarrow> latest_repos_loop env gh since rest allCommits')
         | _ \<Rightarrow> latest_repos_loop env gh since rest allCommits)"

text \<open>\<^verbatim>\<open>GetLatestCommits\<close> either panics or returns the commits with a nil error
  (\<open>None\<close>).\<close>

definition GetLatestCommits ::
  "latest_env \<Rightarrow> GitHub \<Rightarrow> Time \<Rightarrow> string list \<Rightarrow> int \<Rightarrow> panic + (Commit list \<times> error option)" where
  "GetLatestCommits env gh now repoNames daysBack =
     (let since = AddDate now 0 0 (- daysBack)
      in case latest_repos_loop env gh since repoNames [] of
           Inl p \<Rightarrow> Inl p
         | Inr allCommits \<Rightarrow> Inr (allCommits, None))"

section \<open>Package main: the summary generator (llm.go)\<close>

record GeminiPart =
  GeminiPart_Text :: string

record GeminiContent =
  GeminiContent_Parts :: "GeminiPart list"

record GeminiRequest =
  GeminiRequest_Contents :: "GeminiContent list"

record GeminiCandidate =
  GeminiCandidate_Content :: GeminiContent

record GeminiResponse =
  GeminiResponse_Candidates :: "GeminiCandidate list"

record LLMService =
  LLMService_apiKey :: string

definition geminiAPIURL :: string where
  "geminiAPIURL =
     ''https://generativelanguage.googleapis.com/v1beta/models/gemini-2.0-flash:generateContent?key=''"

subsection \<open>Formatting a date\<close>

text \<open>The decimal digits of a natural number.\<close>

fun digits :: "nat \<Rightarrow> string" where
  "digits n =
     (if n < 10 then [''0123456789'' ! n]
      else digits (n div 10) @ [''0123456789'' ! (n mod 10)])"

declare digits.simps [simp del]

text \<open>Go's \<^verbatim>\<open>appendInt\<close>: a sign for a negative number, then the digits padded with
  zeros on the left up to the width.\<close>

definition appendInt :: "int \<Rightarrow> nat \<Rightarrow> string" where
  "appendInt x width =
     (let u = nat \<bar>x\<bar>; ds = digits u
      in (if x < 0 then ''-'' else '''') @ replicate (width - length ds) (CHR ''0'') @ ds)"

text \<open>\<^verbatim>\<open>t.Format("2006-01-02 15:04")\<close>.\<close>

definition Format_minute :: "Time \<Rightarrow> string" where
  "Format_minute t =
     appendInt (Year t) 4 @ ''-'' @ appendInt (Month t) 2 @ ''-'' @ appendInt (Day t) 2
     @ '' '' @ appendInt (Hour t) 2 @ '':'' @ appendInt (Minute t) 2"

subsection \<open>Grouping and rendering\<close>

text \<open>The first loop of \<^verbatim>\<open>GenerateSummary\<close> fills the map \<^verbatim>\<open>repoCommits\<close> from
  repository names to the commits of that repository. Reading a key that is absent
  gives the nil slice.\<close>

definition lookup_commits :: "(string \<rightharpoonup> Commit list) \<Rightarrow> string \<Rightarrow> Commit list" where
  "lookup_commits m k = (case m k of None \<Rightarrow> [] | Some cs \<Rightarrow> cs)"

fun group_loop :: "Commit list \<Rightarrow> (string \<rightharpoonup> Commit list) \<Rightarrow> (string \<rightharpoonup> Commit list)" where
  "group_loop [] repoCommits = repoCommits"
| "group_loop (commit # rest) repoCommits =
     group_loop rest
       (repoCommits(Commit_RepoName commit \<mapsto>
          lookup_commits repoCommits (Commit_RepoName commit) @ [commit]))"

text \<open>The line written for one commit.\<close>

definition commit_line :: "Commit \<Rightarrow> string" where
  "commit_line commit =
     ''- '' @ Commit_SHA commit @ '': '' @ Commit_Message commit @ '' (by ''
     @ Commit_Author commit @ '' on '' @ Format_minute (Commit_Date commit) @ '')\<newline>''"

fun commit_lines_loop :: "Commit list \<Rightarrow> string \<Rightarrow> string" where
  "commit_lines_loop [] commitDetails = commitDetails"
| "commit_lines_loop (commit # rest) commitDetails =
     commit_lines_loop rest (commitDetails @ commit_line commit)"

text \<open>
  The second loop ranges over the map. Go leaves the order in which \<^verbatim>\<open>range\<close> visits
  the keys of a map to the run time, which varies it from one loop to the next. The
  order of one execution of the loop is the list \<open>keys\<close>; \<open>range_order m keys\<close> says
  that it visits every key of \<open>m\<close> once.
\<close>

definition range_order :: "('k \<rightharpoonup> 'v) \<Rightarrow> 'k list \<Rightarrow> bool" where
  "range_order m keys = (distinct keys \<and> set keys = dom m)"

fun repos_loop :: "(string \<rightharpoonup> Commit list) \<Rightarrow> string list \<Rightarrow> string \<Rightarrow> string" where
  "repos_loop repoCommits [] commitDetails = commitDetails"
| "repos_loop repoCommits (repoName # rest) commitDetails =
     repos_loop repoCommits rest
       (commit_lines_loop (lookup_commits repoCommits repoName)
          (commitDetails @ ''Repository: '' @ repoName @ ''\<newline>'')
        @ ''\<newline>'')"

definition commitDetails :: "string list \<Rightarrow> Commit list \<Rightarrow> string" where
  "commitDetails keys commits =
     repos_loop (group_loop commits Map.empty) keys ''Recent commits summary:\<newline>\<newline>''"

definition prompt :: "string list \<Rightarrow> Commit list \<Rightarrow> string" where
  "prompt keys commits =
     ''Please provide a concise summary of the following recent commits for a daily standup or meeting. \<newline>''
     @ ''Focus on the most important changes, new features, bug fixes, and any breaking changes. \<newline>''
     @ ''Group by repository and highlight key achievements:\<newline>''
     @ ''\<newline>''
     @ commitDetails keys commits
     @ ''\<newline>''
     @ ''\<newline>''
     @ ''Please format the response as a professional summary suitable for a team meeting.''"

subsection \<open>The request\<close>

record http_request =
  request_method :: string
  request_url :: string
  request_content_type :: string
  request_body :: string

text \<open>
  The library calls of \<^verbatim>\<open>GenerateSummary\<close>, in the order of the source:
  \<^verbatim>\<open>json.Marshal\<close>, \<^verbatim>\<open>http.NewRequest\<close> (\<open>None\<close>: the request was built),
  \<^verbatim>\<open>client.Do\<close> (what the endpoint sends back), \<^verbatim>\<open>io.ReadAll\<close> and
  \<^verbatim>\<open>json.Unmarshal\<close>.
\<close>

record llm_env =
  json_Marshal :: "GeminiRequest \<Rightarrow> error + string"
  http_NewRequest :: "string \<Rightarrow> string \<Rightarrow> string \<Rightarrow> error option"
  client_Do :: "http_request \<Rightarrow> error + string"
  io_ReadAll :: "string \<Rightarrow> error + string"
  json_Unmarshal :: "string \<Rightarrow> error + GeminiResponse"

text \<open>
  \<^verbatim>\<open>GenerateSummary\<close> returns Go's pair of a string and an error (\<open>None\<close> is nil),
  and with it the requests that the call has sent over the network, in order.
  \<open>keys\<close> is the order in which this call ranges over its map.
\<close>

definition GenerateSummary ::
  "llm_env \<Rightarrow> LLMService \<Rightarrow> string list \<Rightarrow> Commit list
     \<Rightarrow> (string \<times> error option) \<times> http_request list" where
  "GenerateSummary env llm keys commits =
     (if length commits = 0
      then ((''No commits found in the specified time period.'', None), [])
      else
        let requestBody =
              \<lparr>GeminiRequest_Contents =
                 [\<lparr>GeminiContent_Parts = [\<lparr>GeminiPart_Text = prompt keys commits\<rparr>]\<rparr>]\<rparr>
        in case json_Marshal env requestBody of
             Inl err \<Rightarrow> (('''', Some err), [])
           | Inr jsonData \<Rightarrow>
               let url = geminiAPIURL @ LLMService_apiKey llm
               in case http_NewRequest env ''POST'' url jsonData of
                    Some err \<Rightarrow> (('''', Some err), [])
                  | None \<Rightarrow>
                      let req = \<lparr>request_method = ''POST'', request_url = url,
                                 request_content_type = ''application/json'',
                                 request_body = jsonData\<rparr>
                      in case client_Do env req of
                           Inl err \<Rightarrow> (('''', Some err), [req])
                         | Inr resp \<Rightarrow>
                             (case io_ReadAll env resp of
                                Inl err \<Rightarrow> (('''', Some err), [req])
                              | Inr body \<Rightarrow>
                                  (case json_Unmarshal env body of
                                     Inl err \<Rightarrow> (('''', Some err), [req])
                                   | Inr geminiResp \<Rightarrow>
                                       (case GeminiResponse_Candidates geminiResp of
                                          [] \<Rightarrow> ((''Unable to generate summary at this time.'', None), [req])
                                        | candidate # _ \<Rightarrow>
                                            (case GeminiContent_Parts (GeminiCandidate_Content candidate) of
                                               [] \<Rightarrow> ((''Unable to generate summary at this time.'', None), [req])
                                             | part # _ \<Rightarrow> ((GeminiPart_Text part, None), [req]))))))"

section \<open>Package github: branches and commits of a repository\<close>

text \<open>The struct \<^verbatim>\<open>Repo\<close> of package \<^verbatim>\<open>github\<close> has the fields of the one of package
  \<^verbatim>\<open>main\<close> and two more.\<close>

record github_Repo = Repo +
  Repo_FullName :: string
  Repo_CommitsURL :: string

record github_GitHub =
  github_GitHub_user :: user
  github_GitHub_repos :: "github_Repo list"

record CommitUser =
  CommitUser_Name :: string
  CommitUser_Email :: string
  CommitUser_Date :: Time

record CommitInfo =
  CommitInfo_Author :: CommitUser
  CommitInfo_Committer :: CommitUser
  CommitInfo_Message :: string

record github_Commit =
  github_Commit_SHA :: string
  github_Commit_Commit :: CommitInfo

record Branch =
  Branch_Name :: string
  Branch_Commit :: github_Commit
  Branch_Protected :: bool

text \<open>
  What the two paginated listings ask of the hosting platform. The query of the commit
  listing carries \<^verbatim>\<open>since\<close> only when the instant is not the zero time and
  \<^verbatim>\<open>sha\<close> only when the branch name is not empty.
\<close>

record branches_query =
  branches_repo :: string
  branches_page :: int
  branches_per_page :: int

record commits_query =
  commits_repo :: string
  commits_page :: int
  commits_per_page :: int
  commits_since :: "Time option"
  commits_sha :: "string option"

record github_env =
  get_branches :: "branches_query \<Rightarrow> Branch list fetched"
  get_commits :: "commits_query \<Rightarrow> github_Commit list fetched"

text \<open>The search for the repository by name, at the head of both listings.\<close>

definition targetRepo :: "github_GitHub \<Rightarrow> string \<Rightarrow> github_Repo option" where
  "targetRepo gh repoName = find (\<lambda>repo. Repo_Name repo = repoName) (github_GitHub_repos gh)"

text \<open>
  The page loops run until a page comes back empty or short. Nothing in the program
  bounds them: a platform that keeps sending full pages keeps the loop running, and the
  value is then \<open>None\<close>. A value \<open>Some (xs, err)\<close> is Go's returned pair, \<open>err = None\<close>
  the nil error.
\<close>

partial_function (option) commits_pages ::
  "github_env \<Rightarrow> string \<Rightarrow> Time \<Rightarrow> string \<Rightarrow> int \<Rightarrow> github_Commit list
     \<Rightarrow> (github_Commit list \<times> error option) option" where
  "commits_pages env fullName since branchName page allCommits =
     (let perPage = 100;
          url = \<lparr>commits_repo = fullName, commits_page = page, commits_per_page = perPage,
                 commits_since = (if \<not> IsZero since then Some since else None),
                 commits_sha = (if branchName \<noteq> [] then Some branchName else None)\<rparr>
      in case get_commits env url of
           NewRequestFailed err \<Rightarrow> Some ([], Some (Errorf ''failed to create request: '' err))
         | DoFailed err \<Rightarrow> Some ([], Some (Errorf ''failed to do request: '' err))
         | ReadAllFailed err \<Rightarrow> Some ([], Some (Errorf ''failed to read data: '' err))
         | UnmarshalFailed err \<Rightarrow> Some ([], Some (Errorf ''failed to unmarshal data: '' err))
         | Decoded commits \<Rightarrow>
             if length commits = 0 then Some (allCommits, None)
             else if int (length commits) < perPage then Some (allCommits @ commits, None)
             else commits_pages env fullName since branchName (page + 1) (allCommits @ commits))"

declare commits_pages.simps [code]

definition GetCommitsForRepoSinceFromBranch ::
  "github_env \<Rightarrow> github_GitHub \<Rightarrow> string \<Rightarrow> Time \<Rightarrow> string
     \<Rightarrow> (github_Commit list \<times> error option) option" where
  "GetCommitsForRepoSinceFromBranch env gh repoName since branchName =
     (case targetRepo gh repoName of
        None \<Rightarrow> Some ([], Some (Error (''repository '' @ repoName @ '' not found'')))
      | Some repo \<Rightarrow> commits_pages env (Repo_FullName repo) since branchName 1 [])"

partial_function (option) branches_pages ::
  "github_env \<Rightarrow> string \<Rightarrow> int \<Rightarrow> Branch list \<Rightarrow> (Branch list \<times> error option) option" where
  "branches_pages env fullName page allBranches =
     (let perPage = 100;
          url = \<lparr>branches_repo = fullName, branches_page = page, branches_per_page = perPage\<rparr>
      in case get_branches env url of
           NewRequestFailed err \<Rightarrow> Some ([], Some (Errorf ''failed to create request: '' err))
         | DoFailed err \<Rightarrow> Some ([], Some (Errorf ''failed to do request: '' err))
         | ReadAllFailed err \<Rightarrow> Some ([], Some (Errorf ''failed to read data: '' err))
         | UnmarshalFailed err \<Rightarrow> Some ([], Some (Errorf ''failed to unmarshal data: '' err))
         | Decoded branches \<Rightarrow>
             if length branches = 0 then Some (allBranches, None)
             else if int (length branches) < perPage then Some (allBranches @ branches, None)
             else branches_pages env fullName (page + 1) (allBranches @ branches))"

declare branches_pages.simps [code]

definition GetBranchesForRepo ::
  "github_env \<Rightarrow> github_GitHub \<Rightarrow> string \<Rightarrow> (Branch list \<times> error option) option" where
  "GetBranchesForRepo env gh repoName =
     (case targetRepo gh repoName of
        None \<Rightarrow> Some ([], Some (Error (''repository '' @ repoName @ '' not found'')))
      | Some repo \<Rightarrow> branches_pages env (Repo_FullName repo) 1 [])"

text \<open>
  The inner loop of \<^verbatim>\<open>GetCommitsFromAllBranches\<close> adds the commits whose SHA is not yet
  marked in \<^verbatim>\<open>commitMap\<close>. The map is a \<^verbatim>\<open>map[string]bool\<close>: reading an absent key
  gives \<^verbatim>\<open>false\<close>.
\<close>

fun unique_loop ::
  "github_Commit list \<Rightarrow> github_Commit list \<times> (string \<Rightarrow> bool)
     \<Rightarrow> github_Commit list \<times> (string \<Rightarrow> bool)" where
  "unique_loop [] (allCommits, commitMap) = (allCommits, commitMap)"
| "unique_loop (commit # rest) (allCommits, commitMap) =
     (if \<not> commitMap (github_Commit_SHA commit)
      then unique_loop rest (allCommits @ [commit], commitMap(github_Commit_SHA commit := True))
      else unique_loop rest (allCommits, commitMap))"

text \<open>The loop over the branches. A branch whose listing fails is reported on the
  standard output and skipped.\<close>

fun all_branches_loop ::
  "github_env \<Rightarrow> github_GitHub \<Rightarrow> string \<Rightarrow> Time \<Rightarrow> Branch list
     \<Rightarrow> github_Commit list \<times> (string \<Rightarrow> bool) \<Rightarrow> (github_Commit list \<times> error option) option" where
  "all_branches_loop env gh repoName since [] (allCommits, commitMap) = Some (allCommits, None)"
| "all_branches_loop env gh repoName since (branch # rest) (allCommits, commitMap) =
     (case GetCommitsForRepoSinceFromBranch env gh repoName since (Branch_Name branch) of
        None \<Rightarrow> None
      | Some (commits, Some err) \<Rightarrow>
          all_branches_loop env gh repoName since rest (allCommits, commitMap)
      | Some (commits, None) \<Rightarrow>
          all_branches_loop env gh repoName since rest (unique_loop commits (allCommits, commitMap)))"

definition GetCommitsFromAllBranches ::
  "github_env \<Rightarrow> github_GitHub \<Rightarrow> string \<Rightarrow> Time \<Rightarrow> (github_Commit list \<times> error option) option" where
  "GetCommitsFromAllBranches env gh repoName since =
     (case GetBranchesForRepo env gh repoName of
        None \<Rightarrow> None
      | Some (branches, Some err) \<Rightarrow> Some ([], Some (Errorf ''failed to get branches: '' err))
      | Some (branches, None) \<Rightarrow>
          all_branches_loop env gh repoName since branches ([], \<lambda>sha. False))"



text \<open>What the loops keep true of \<^verbatim>\<open>allCommits\<close> and \<^verbatim>\<open>commitMap\<close>: no identifier occurs
  twice in the slice, and the map marks exactly the identifiers of the slice.\<close>

definition marks :: "github_Commit list \<times> (string \<Rightarrow> bool) \<Rightarrow> bool" where
  "marks s = (distinct (map github_Commit_SHA (fst s))
              \<and> (\<forall>sha. snd s sha \<longleftrightarrow> sha \<in> github_Commit_SHA ` set (fst s)))"

text \<open>An answer that ends a page loop: a failure, or a page of fewer than 100 entries.\<close>

definition last_page :: "'a list fetched \<Rightarrow> bool" where
  "last_page answer = (case answer of Decoded xs \<Rightarrow> length xs < 100 | _ \<Rightarrow> True)"

section \<open>Package github, client variant: repositories with recent commits\<close>

record RepositoryInfo =
  RepositoryInfo_Name :: string
  RepositoryInfo_FullName :: string
  RepositoryInfo_Description :: string
  RepositoryInfo_URL :: string
  RepositoryInfo_LastPush :: Time
  RepositoryInfo_Language :: string

text \<open>
  The client library's \<^verbatim>\<open>CommitsListOptions\<close>, with the fields that select the
  commits: \<^verbatim>\<open>SHA\<close> names the branch or commit to start listing from and is left out of
  the request when empty, in which case the platform lists the default branch.
\<close>

record CommitsListOptions =
  CommitsListOptions_SHA :: string
  CommitsListOptions_Since :: Time
  CommitsListOptions_Page :: int
  CommitsListOptions_PerPage :: int

record RepositoryCommit =
  RepositoryCommit_SHA :: string

text \<open>
  The surroundings of \<^verbatim>\<open>GetRepositoriesWithRecentCommits\<close>: the client library's
  \<^verbatim>\<open>Repositories.ListCommits\<close>, and the two listings of candidate repositories. The
  method \<^verbatim>\<open>repo\<close> that the function calls for the user's own repositories is not among
  the sources, and the pair it returns is taken as given; so is the pair returned by
  \<^verbatim>\<open>getOrganizationRepositories\<close>. Both listings keep only repositories whose update
  timestamp is after \<^verbatim>\<open>since\<close>.
\<close>

record client_env =
  Repositories_ListCommits ::
    "string \<Rightarrow> string \<Rightarrow> CommitsListOptions \<Rightarrow> RepositoryCommit list \<times> error option"
  client_repo :: "string \<Rightarrow> Time \<Rightarrow> RepositoryInfo list \<times> error option"
  getOrganizationRepositories :: "string \<Rightarrow> Time \<Rightarrow> RepositoryInfo list \<times> error option"

text \<open>\<^verbatim>\<open>parseRepoName\<close> cuts the full name at the first slash.\<close>

fun parseRepoName_loop :: "string \<Rightarrow> string \<Rightarrow> string \<times> string" where
  "parseRepoName_loop seen [] = ('''', seen)"
| "parseRepoName_loop seen (char # rest) =
     (if char = CHR ''/'' then (seen, rest) else parseRepoName_loop (seen @ [char]) rest)"

definition parseRepoName :: "string \<Rightarrow> string \<times> string" where
  "parseRepoName fullName = parseRepoName_loop [] fullName"

definition hasCommitsSince :: "client_env \<Rightarrow> string \<Rightarrow> Time \<Rightarrow> bool \<times> error option" where
  "hasCommitsSince env fullRepoName since =
     (let (owner, repo) = parseRepoName fullRepoName;
          opt = \<lparr>CommitsListOptions_SHA = '''', CommitsListOptions_Since = since,
                 CommitsListOptions_Page = 0, CommitsListOptions_PerPage = 1\<rparr>
      in case Repositories_ListCommits env owner repo opt of
           (commits, Some err) \<Rightarrow> (False, Some err)
         | (commits, None) \<Rightarrow> (length commits > 0, None))"

fun reposMap_loop ::
  "RepositoryInfo list \<Rightarrow> (string \<rightharpoonup> RepositoryInfo) \<Rightarrow> (string \<rightharpoonup> RepositoryInfo)" where
  "reposMap_loop [] reposMap = reposMap"
| "reposMap_loop (repo # rest) reposMap =
     reposMap_loop rest (reposMap(RepositoryInfo_FullName repo \<mapsto> repo))"

text \<open>The last loop ranges over \<^verbatim>\<open>reposMap\<close> in the order \<open>keys\<close> of the run time. A
  repository whose check fails is logged and skipped.\<close>

fun recent_loop ::
  "client_env \<Rightarrow> Time \<Rightarrow> (string \<rightharpoonup> RepositoryInfo) \<Rightarrow> string list
     \<Rightarrow> RepositoryInfo list \<Rightarrow> RepositoryInfo list" where
  "recent_loop env since reposMap [] repos = repos"
| "recent_loop env since reposMap (key # rest) repos =
     (case reposMap key of
        None \<Rightarrow> recent_loop env since reposMap rest repos
      | Some repoInfo \<Rightarrow>
          (case hasCommitsSince env (RepositoryInfo_FullName repoInfo) since of
             (hasRecentCommits, Some err) \<Rightarrow> recent_loop env since reposMap rest repos
           | (hasRecentCommits, None) \<Rightarrow>
               if hasRecentCommits then recent_loop env since reposMap rest (repos @ [repoInfo])
               else recent_loop env since reposMap rest repos))"

definition GetRepositoriesWithRecentCommits ::
  "client_env \<Rightarrow> string list \<Rightarrow> string \<Rightarrow> Time \<Rightarrow> RepositoryInfo list \<times> error option" where
  "GetRepositoriesWithRecentCommits env keys username since =
     (case client_repo env username since of
        (userRepos, Some err) \<Rightarrow> ([], Some err)
      | (userRepos, None) \<Rightarrow>
          let reposMap = reposMap_loop userRepos Map.empty;
              reposMap' = (case getOrganizationRepositories env username since of
                             (orgRepos, Some err) \<Rightarrow> reposMap
                           | (orgRepos, None) \<Rightarrow> reposMap_loop orgRepos reposMap)
          in (recent_loop env since reposMap' keys [], None))"

section \<open>Concrete inputs\<close>




text \<open>
  The clock of Cairo around its change of 26 April 2024: two hours east of UTC until
  22:00 UTC of 25 April, which is midnight there, three hours east from then on, so that
  the clock goes from 23:59:59 on Thursday to 01:00:00 on Friday. Monday 2024-04-29,
  10:30 there.
\<close>

definition cairo :: Location where
  "cairo = (\<lambda>sec. if sec < 1714082400 then (7200, alpha, 1714082400)
                  else (10800, 1714082400, omega))"


text \<open>Monday 2024-01-15, 12:00 UTC, and two repositories updated 2 and 10 days before.\<close>

definition noon :: Time where
  "noon = \<lparr>unixNano = 1705320000 * 1000000000, Location = UTC\<rparr>"

definition repo_a :: Repo where
  "repo_a = \<lparr>Repo_ID = 1, Repo_Name = ''a'', Repo_Private = False, Repo_HTMLURL = '''',
             Repo_URL = '''', Repo_Language = ''Go'', Repo_CreatedAt = zeroTime,
             Repo_UpdatedAt = \<lparr>unixNano = 1705147200 * 1000000000, Location = UTC\<rparr>\<rparr>"

definition repo_b :: Repo where
  "repo_b = \<lparr>Repo_ID = 2, Repo_Name = ''b'', Repo_Private = False, Repo_HTMLURL = '''',
             Repo_URL = '''', Repo_Language = ''Go'', Repo_CreatedAt = zeroTime,
             Repo_UpdatedAt = \<lparr>unixNano = 1704456000 * 1000000000, Location = UTC\<rparr>\<rparr>"

definition gh_ab :: GitHub where
  "gh_ab = \<lparr>GitHub_user = \<lparr>user_username = ''u'', user_apiKey = ''k''\<rparr>,
            GitHub_repos = [repo_a, repo_b]\<rparr>"

text \<open>One commit, and an endpoint whose answer decodes to one candidate whose only part
  has the empty text.\<close>

definition commit_1 :: Commit where
  "commit_1 = \<lparr>Commit_SHA = ''abc12345'', Commit_Message = ''fix bug'', Commit_Author = ''ann'',
               Commit_Date = noon, Commit_RepoName = ''a'', Commit_HTMLURL = ''''\<rparr>"

definition llm_1 :: LLMService where
  "llm_1 = \<lparr>LLMService_apiKey = ''key''\<rparr>"

definition env_answering :: "GeminiResponse \<Rightarrow> llm_env" where
  "env_answering answer =
     \<lparr>json_Marshal = (\<lambda>request. Inr ''{}''),
      http_NewRequest = (\<lambda>method url body. None),
      client_Do = (\<lambda>req. Inr ''{}''),
      io_ReadAll = (\<lambda>resp. Inr resp),
      json_Unmarshal = (\<lambda>body. Inr answer)\<rparr>"

definition answer_empty_text :: GeminiResponse where
  "answer_empty_text =
     \<lparr>GeminiResponse_Candidates =
        [\<lparr>GeminiCandidate_Content = \<lparr>GeminiContent_Parts = [\<lparr>GeminiPart_Text = ''''\<rparr>]\<rparr>\<rparr>]\<rparr>"

definition answer_no_candidates :: GeminiResponse where
  "answer_no_candidates = \<lparr>GeminiResponse_Candidates = []\<rparr>"

text \<open>A decoded commit whose identifier has 6 bytes, and a platform that answers every
  query with it.\<close>

definition response_short :: CommitResponse where
  "response_short =
     \<lparr>CommitResponse_SHA = ''abc123'',
      CommitResponse_Commit =
        \<lparr>CommitDetails_Message = \<lparr>CommitMessage_Message = ''fix bug''\<rparr>,
         CommitDetails_Author = \<lparr>CommitAuthor_Name = ''ann'', CommitAuthor_Email = '''',
                                 CommitAuthor_Date = ''2024-01-14T10:00:00Z''\<rparr>\<rparr>,
      CommitResponse_HTMLURL = '''',
      CommitResponse_Author = None\<rparr>"

definition env_short :: latest_env where
  "env_short = \<lparr>latest_get = (\<lambda>q. Decoded [response_short]), parse_RFC3339 = (\<lambda>s. None)\<rparr>"

text \<open>A decoded commit whose identifier has 12 bytes, and a platform that answers every
  query with it.\<close>

definition response_long :: CommitResponse where
  "response_long = response_short\<lparr>CommitResponse_SHA := ''abc123456789''\<rparr>"

definition env_long :: latest_env where
  "env_long = \<lparr>latest_get = (\<lambda>q. Decoded [response_long]), parse_RFC3339 = (\<lambda>s. None)\<rparr>"

text \<open>A repository \<open>u/r\<close> with the branches \<open>main\<close> and \<open>dev\<close>, which share the commit
  \<open>abc123\<close>.\<close>

definition gh_r :: github_GitHub where
  "gh_r =
     \<lparr>github_GitHub_user = \<lparr>user_username = ''u'', user_apiKey = ''k''\<rparr>,
      github_GitHub_repos =
        [\<lparr>Repo_ID = 1, Repo_Name = ''r'', Repo_Private = False, Repo_HTMLURL = '''',
          Repo_URL = '''', Repo_Language = ''Go'', Repo_CreatedAt = zeroTime,
          Repo_UpdatedAt = noon, Repo_FullName = ''u/r'', Repo_CommitsURL = ''''\<rparr>]\<rparr>"

definition commit_of :: "string \<Rightarrow> string \<Rightarrow> github_Commit" where
  "commit_of sha message =
     \<lparr>github_Commit_SHA = sha,
      github_Commit_Commit =
        \<lparr>CommitInfo_Author = \<lparr>CommitUser_Name = ''ann'', CommitUser_Email = '''',
                               CommitUser_Date = noon\<rparr>,
         CommitInfo_Committer = \<lparr>CommitUser_Name = ''ann'', CommitUser_Email = '''',
                                  CommitUser_Date = noon\<rparr>,
         CommitInfo_Message = message\<rparr>\<rparr>"

definition branch_of :: "string \<Rightarrow> string \<Rightarrow> Branch" where
  "branch_of name head =
     \<lparr>Branch_Name = name, Branch_Commit = commit_of head '''', Branch_Protected = False\<rparr>"

definition env_two_branches :: github_env where
  "env_two_branches =
     \<lparr>get_branches = (\<lambda>q. if branches_page q = 1
                            then Decoded [branch_of ''main'' ''m1'', branch_of ''dev'' ''d1'']
                            else Decoded []),
      get_commits = (\<lambda>q. if commits_page q \<noteq> 1 then Decoded []
                           else if commits_sha q = Some ''main''
                           then Decoded [commit_of ''m1'' ''on main'', commit_of ''abc123'' ''fix bug'']
                           else if commits_sha q = Some ''dev''
                           then Decoded [commit_of ''d1'' ''on dev'', commit_of ''abc123'' ''fix bug'']
                           else Decoded [])\<rparr>"

text \<open>The same repository on a platform that lists no branch, and on one that lists two
  branches without commits since the cutoff.\<close>

definition env_no_branches :: github_env where
  "env_no_branches =
     \<lparr>get_branches = (\<lambda>q. Decoded []),
      get_commits = (\<lambda>q. Decoded [commit_of ''m1'' ''on main''])\<rparr>"

definition env_no_commits :: github_env where
  "env_no_commits =
     \<lparr>get_branches = (\<lambda>q. if branches_page q = 1
                            then Decoded [branch_of ''main'' ''m1'', branch_of ''dev'' ''d1'']
                            else Decoded []),
      get_commits = (\<lambda>q. Decoded [])\<rparr>"

text \<open>A second commit, of repository \<open>b\<close>, and surroundings in which
  \<^verbatim>\<open>json.Marshal\<close> hands the prompt on unchanged, so that the prompt is the body of
  the request sent.\<close>

definition commit_2 :: Commit where
  "commit_2 = \<lparr>Commit_SHA = ''def67890'', Commit_Message = ''add feature'', Commit_Author = ''bob'',
               Commit_Date = noon, Commit_RepoName = ''b'', Commit_HTMLURL = ''''\<rparr>"

definition env_echo :: llm_env where
  "env_echo =
     \<lparr>json_Marshal = (\<lambda>request.
         Inr (concat (map (\<lambda>content. concat (map GeminiPart_Text (GeminiContent_Parts content)))
                (GeminiRequest_Contents request)))),
      http_NewRequest = (\<lambda>method url body. None),
      client_Do = (\<lambda>req. Inr ''{}''),
      io_ReadAll = (\<lambda>resp. Inr resp),
      json_Unmarshal = (\<lambda>body. Inr answer_no_candidates)\<rparr>"

text \<open>A candidate repository \<open>u/r\<close> on a platform where only the branch \<open>dev\<close> has a
  commit since the cutoff: the listing that names \<open>dev\<close> holds one commit, the listing
  that names no branch (the default branch) holds none.\<close>

definition info_r :: RepositoryInfo where
  "info_r =
     \<lparr>RepositoryInfo_Name = ''r'', RepositoryInfo_FullName = ''u/r'',
      RepositoryInfo_Description = '''', RepositoryInfo_URL = '''',
      RepositoryInfo_LastPush = noon, RepositoryInfo_Language = ''Go''\<rparr>"

definition env_dev_only :: client_env where
  "env_dev_only =
     \<lparr>Repositories_ListCommits = (\<lambda>owner repo opt.
         if owner = ''u'' \<and> repo = ''r'' \<and> CommitsListOptions_SHA opt = ''dev''
         then ([\<lparr>RepositoryCommit_SHA = ''d1''\<rparr>], None) else ([], None)),
      client_repo = (\<lambda>username since. ([info_r], None)),
      getOrganizationRepositories = (\<lambda>username since. ([], None))\<rparr>"

section \<open>Properties of the calendar\<close>

lemma daysBefore_simps:
  "daysBefore 0 = 0" "daysBefore 1 = 31" "daysBefore 2 = 59" "daysBefore 3 = 90"
  "daysBefore 4 = 120" "daysBefore 5 = 151" "daysBefore 6 = 181" "daysBefore 7 = 212"
  "daysBefore 8 = 243" "daysBefore 9 = 273" "daysBefore 10 = 304" "daysBefore 11 = 334"
  "daysBefore 12 = 365"
  by (simp_all add: daysBefore_def)

lemma upto_0_11: "[0..11::int] = [0,1,2,3,4,5,6,7,8,9,10,11]"
  by (simp add: upto.simps)

lemma int_cases_0_11:
  assumes "0 \<le> (k::int)" "k \<le> 11"
  shows "k = 0 \<or> k = 1 \<or> k = 2 \<or> k = 3 \<or> k = 4 \<or> k = 5 \<or> k = 6 \<or> k = 7 \<or> k = 8 \<or> k = 9 \<or> k = 10 \<or> k = 11"
proof -
  have "k \<in> set [0..11]" using assms by simp
  then show ?thesis unfolding upto_0_11 by simp
qed

lemma month_step_props:
  assumes "0 \<le> day" "day \<le> 364" "31 * k \<le> day" "day < 31 * k + 31"
  shows "(if day \<ge> daysBefore (k + 1) then 0 \<le> k + 1 \<and> k + 1 \<le> 11 \<and> (2 \<le> k + 1 \<longleftrightarrow> 59 \<le> day)
          else 0 \<le> k \<and> k \<le> 11 \<and> (2 \<le> k \<longleftrightarrow> 59 \<le> day))"
proof -
  have "0 \<le> k" "k \<le> 11" using assms by linarith+
  from int_cases_0_11[OF this] show ?thesis
    using assms by (elim disjE) (simp_all add: daysBefore_simps)
qed


lemma div_bounds:
  fixes d c :: int
  assumes "0 < c"
  shows "c * (d div c) \<le> d" "d < c * (d div c) + c"
proof -
  have "c * (d div c) + d mod c = d" by simp
  moreover have "0 \<le> d mod c" "d mod c < c" using assms by simp_all
  ultimately show "c * (d div c) \<le> d" "d < c * (d div c) + c" by linarith+
qed

lemma div_unique_pos:
  fixes q r c :: int
  assumes "0 \<le> r" "r < c"
  shows "(c * q + r) div c = q" "(c * q + r) mod c = r"
  using assms by simp_all

lemma cut_quarter:
  fixes q :: int
  assumes "0 \<le> q" "q \<le> 4"
  shows "q - q div 4 = (if q = 4 then 3 else q)"
proof -
  have "q = 0 \<or> q = 1 \<or> q = 2 \<or> q = 3 \<or> q = 4" using assms by linarith
  then show ?thesis by (elim disjE) simp_all
qed

lemma year_split:
  fixes d1 :: int
  assumes d1: "0 \<le> d1" "d1 < 146097"
  defines "q100 \<equiv> d1 div 36524"
  defines "n100 \<equiv> q100 - q100 div 4"
  defines "d2 \<equiv> d1 - 36524 * n100"
  defines "n4 \<equiv> d2 div 1461"
  defines "d3 \<equiv> d2 - 1461 * n4"
  defines "q1 \<equiv> d3 div 365"
  defines "n1 \<equiv> q1 - q1 div 4"
  defines "yday \<equiv> d3 - 365 * n1"
  shows "0 \<le> n100 \<and> n100 \<le> 3 \<and> 0 \<le> n4 \<and> n4 \<le> 24 \<and> 0 \<le> n1 \<and> n1 \<le> 3 \<and> 0 \<le> yday
         \<and> (yday \<le> 364 \<or> yday = 365 \<and> n1 = 3 \<and> (n4 \<noteq> 24 \<or> n100 = 3))"
proof -
  have q100: "36524 * q100 \<le> d1" "d1 < 36524 * q100 + 36524"
    unfolding q100_def by (rule div_bounds, simp)+
  then have q100r: "0 \<le> q100" "q100 \<le> 4" using d1 by linarith+
  have n100: "n100 = (if q100 = 4 then 3 else q100)"
    unfolding n100_def by (rule cut_quarter[OF q100r])
  have n100r: "0 \<le> n100" "n100 \<le> 3" using n100 q100r by (auto split: if_splits)
  have d2r: "0 \<le> d2" "d2 \<le> 36524" "n100 = 3 \<or> d2 < 36524"
    using n100 q100 q100r d1 unfolding d2_def by (auto split: if_splits)
  have n4: "1461 * n4 \<le> d2" "d2 < 1461 * n4 + 1461"
    unfolding n4_def by (rule div_bounds, simp)+
  then have n4r: "0 \<le> n4" "n4 \<le> 24" using d2r by linarith+
  have d3r: "0 \<le> d3" "d3 < 1461" "n100 = 3 \<or> n4 \<noteq> 24 \<or> d3 < 1460"
    using n4 d2r unfolding d3_def by auto
  have q1: "365 * q1 \<le> d3" "d3 < 365 * q1 + 365"
    unfolding q1_def by (rule div_bounds, simp)+
  then have q1r: "0 \<le> q1" "q1 \<le> 4" using d3r by linarith+
  have n1: "n1 = (if q1 = 4 then 3 else q1)"
    unfolding n1_def by (rule cut_quarter[OF q1r])
  have n1r: "0 \<le> n1" "n1 \<le> 3" using n1 q1r by (auto split: if_splits)
  have yd: "0 \<le> yday" "yday \<le> 364 \<or> yday = 365 \<and> n1 = 3 \<and> (n4 \<noteq> 24 \<or> n100 = 3)"
    using n1 q1 q1r d3r n100r unfolding yday_def by (auto split: if_splits)
  show ?thesis using n100r n4r n1r yd by blast
qed


lemma mod_zero_iff:
  fixes q r c :: int
  assumes "0 \<le> r" "r \<le> c" "0 < c"
  shows "(c * q + r) mod c = 0 \<longleftrightarrow> r = 0 \<or> r = c"
proof (cases "r = c")
  case True
  then show ?thesis by simp
next
  case False
  then have "r < c" using assms by simp
  then show ?thesis using assms div_unique_pos(2)[of r c q] by simp
qed

lemma isLeap_split:
  fixes n400 n100 n4 n1 :: int
  assumes "0 \<le> n100" "n100 \<le> 3" "0 \<le> n4" "n4 \<le> 24" "0 \<le> n1" "n1 \<le> 3"
  shows "isLeap (400 * n400 + 100 * n100 + 4 * n4 + n1 + 1) \<longleftrightarrow> n1 = 3 \<and> (n4 \<noteq> 24 \<or> n100 = 3)"
proof -
  let ?y = "400 * n400 + 100 * n100 + 4 * n4 + n1 + 1"
  have e4: "?y = 4 * (100 * n400 + 25 * n100 + n4) + (n1 + 1)" by simp
  have e100: "?y = 100 * (4 * n400 + n100) + (4 * n4 + n1 + 1)" by simp
  have e400: "?y = 400 * n400 + (100 * n100 + 4 * n4 + n1 + 1)" by simp
  have "?y mod 4 = 0 \<longleftrightarrow> n1 + 1 = 0 \<or> n1 + 1 = 4"
    unfolding e4 by (rule mod_zero_iff) (use assms in linarith)+
  then have m4: "?y mod 4 = 0 \<longleftrightarrow> n1 = 3" using assms by linarith
  have "?y mod 100 = 0 \<longleftrightarrow> 4 * n4 + n1 + 1 = 0 \<or> 4 * n4 + n1 + 1 = 100"
    unfolding e100 by (rule mod_zero_iff) (use assms in linarith)+
  moreover have "4 * n4 + n1 + 1 = 100 \<longleftrightarrow> n4 = 24 \<and> n1 = 3" using assms by linarith
  ultimately have m100: "?y mod 100 = 0 \<longleftrightarrow> n4 = 24 \<and> n1 = 3" using assms by linarith
  have "?y mod 400 = 0 \<longleftrightarrow> 100 * n100 + 4 * n4 + n1 + 1 = 0 \<or> 100 * n100 + 4 * n4 + n1 + 1 = 400"
    unfolding e400 by (rule mod_zero_iff) (use assms in linarith)+
  moreover have "100 * n100 + 4 * n4 + n1 + 1 = 400 \<longleftrightarrow> n100 = 3 \<and> n4 = 24 \<and> n1 = 3"
    using assms by linarith
  ultimately have m400: "?y mod 400 = 0 \<longleftrightarrow> n100 = 3 \<and> n4 = 24 \<and> n1 = 3" using assms by linarith
  show ?thesis unfolding isLeap_def m4 m100 m400 by blast
qed

lemma daysSinceEpoch_split:
  fixes n400 n100 n4 n1 :: int
  assumes "0 \<le> n100" "n100 \<le> 3" "0 \<le> n4" "n4 \<le> 24" "0 \<le> n1" "n1 \<le> 3"
  shows "daysSinceEpoch (400 * n400 + 100 * n100 + 4 * n4 + n1 + 1)
           = 146097 * n400 + 36524 * n100 + 1461 * n4 + 365 * n1 - 719162"
proof -
  let ?y = "400 * n400 + 100 * n100 + 4 * n4 + n1"
  have e4: "?y = 4 * (100 * n400 + 25 * n100 + n4) + n1" by simp
  have e100: "?y = 100 * (4 * n400 + n100) + (4 * n4 + n1)" by simp
  have e400: "?y = 400 * n400 + (100 * n100 + 4 * n4 + n1)" by simp
  have d4: "?y div 4 = 100 * n400 + 25 * n100 + n4"
    unfolding e4 by (rule div_unique_pos) (use assms in linarith)+
  have d100: "?y div 100 = 4 * n400 + n100"
    unfolding e100 by (rule div_unique_pos) (use assms in linarith)+
  have d400: "?y div 400 = n400"
    unfolding e400 by (rule div_unique_pos) (use assms in linarith)+
  show ?thesis unfolding daysSinceEpoch_def Let_def using d4 d100 d400 by simp
qed

lemma absYearDay_props:
  assumes "absYearDay n = (year, yday)"
  shows "daysSinceEpoch year + yday = n" "0 \<le> yday" "yday \<le> 364 \<or> yday = 365 \<and> isLeap year"
proof -
  define d0 where "d0 = n + 719162"
  define n400 where "n400 = d0 div 146097"
  define d1 where "d1 = d0 - 146097 * n400"
  define q100 where "q100 = d1 div 36524"
  define n100 where "n100 = q100 - q100 div 4"
  define d2 where "d2 = d1 - 36524 * n100"
  define n4 where "n4 = d2 div 1461"
  define d3 where "d3 = d2 - 1461 * n4"
  define q1 where "q1 = d3 div 365"
  define n1 where "n1 = q1 - q1 div 4"
  have "absYearDay n = (400 * n400 + 100 * n100 + 4 * n4 + n1 + 1, d3 - 365 * n1)"
    unfolding absYearDay_def Let_def d0_def n400_def d1_def q100_def n100_def d2_def n4_def
      d3_def q1_def n1_def
    by (rule refl)
  with assms have yr: "year = 400 * n400 + 100 * n100 + 4 * n4 + n1 + 1"
    and yd: "yday = d3 - 365 * n1"
    by simp_all
  have d1r: "0 \<le> d1" "d1 < 146097"
    using div_bounds[of 146097 d0] unfolding d1_def n400_def by simp_all
  note ys = year_split[OF d1r, folded q100_def, folded n100_def, folded d2_def, folded n4_def,
      folded d3_def, folded q1_def, folded n1_def, folded yd]
  have r: "0 \<le> n100" "n100 \<le> 3" "0 \<le> n4" "n4 \<le> 24" "0 \<le> n1" "n1 \<le> 3"
    using ys by simp_all
  have "daysSinceEpoch year = 146097 * n400 + 36524 * n100 + 1461 * n4 + 365 * n1 - 719162"
    unfolding yr by (rule daysSinceEpoch_split[OF r])
  then show "daysSinceEpoch year + yday = n"
    unfolding yd d3_def d2_def d1_def d0_def by simp
  show "0 \<le> yday" using ys by simp
  have "isLeap year \<longleftrightarrow> n1 = 3 \<and> (n4 \<noteq> 24 \<or> n100 = 3)"
    unfolding yr by (rule isLeap_split[OF r])
  then show "yday \<le> 364 \<or> yday = 365 \<and> isLeap year" using ys by blast
qed


lemma absDate_roundtrip:
  assumes "absDate n = (y, m, d)"
  shows "1 \<le> m" "m \<le> 12"
    "daysSinceEpoch y + daysBefore (m - 1) + (if isLeap y \<and> 3 \<le> m then 1 else 0) + (d - 1) = n"
proof -
  obtain year yday where yd: "absYearDay n = (year, yday)" by (cases "absYearDay n")
  note p = absYearDay_props[OF yd]
  show "1 \<le> m" "m \<le> 12"
    "daysSinceEpoch y + daysBefore (m - 1) + (if isLeap y \<and> 3 \<le> m then 1 else 0) + (d - 1) = n"
  proof (atomize (full), cases "isLeap year \<and> yday = 59")
    case True
    then have "y = year" "m = 2" "d = 29" using assms yd by (simp_all add: absDate_def)
    then show "1 \<le> m \<and> m \<le> 12 \<and>
      daysSinceEpoch y + daysBefore (m - 1) + (if isLeap y \<and> 3 \<le> m then 1 else 0) + (d - 1) = n"
      using True p(1) by (simp add: daysBefore_simps)
  next
    case False
    define day where "day = (if isLeap year \<and> yday > 59 then yday - 1 else yday)"
    define k where "k = day div 31"
    have dayr: "0 \<le> day" "day \<le> 364" using p False unfolding day_def by auto
    have kb: "31 * k \<le> day" "day < 31 * k + 31"
      unfolding k_def by (rule div_bounds, simp)+
    note ms = month_step_props[OF dayr kb]
    have "absDate n = (if day \<ge> daysBefore (k + 1)
                  then (year, k + 1 + 1, day - daysBefore (k + 1) + 1)
                  else (year, k + 1, day - daysBefore k + 1))"
    proof -
      have nl: "(isLeap year \<and> yday = 59) = False" using False by simp
      show ?thesis unfolding absDate_def yd day_def k_def by (simp add: Let_def nl)
    qed
    then have res: "(y, m, d) = (if day \<ge> daysBefore (k + 1)
                  then (year, k + 1 + 1, day - daysBefore (k + 1) + 1)
                  else (year, k + 1, day - daysBefore k + 1))"
      using assms by simp
    show "1 \<le> m \<and> m \<le> 12 \<and>
      daysSinceEpoch y + daysBefore (m - 1) + (if isLeap y \<and> 3 \<le> m then 1 else 0) + (d - 1) = n"
    proof (cases "day \<ge> daysBefore (k + 1)")
      case True
      then have e: "y = year" "m = k + 2" "d = day - daysBefore (k + 1) + 1" using res by simp_all
      have b: "0 \<le> k + 1" "k + 1 \<le> 11" "2 \<le> k + 1 \<longleftrightarrow> 59 \<le> day" using ms True by simp_all
      have m1: "m - 1 = k + 1" using e by simp
      have adj: "(isLeap y \<and> 3 \<le> m) \<longleftrightarrow> (isLeap year \<and> yday > 59)"
        using e b False unfolding day_def by (auto split: if_splits)
      have dy: "day = yday - (if isLeap year \<and> yday > 59 then 1 else 0)"
        by (simp add: day_def)
      have "1 \<le> m" "m \<le> 12" using e b by simp_all
      moreover have "daysSinceEpoch y + daysBefore (m - 1)
          + (if isLeap y \<and> 3 \<le> m then 1 else 0) + (d - 1) = n"
        unfolding m1 adj using e(1,3) p(1) dy by simp
      ultimately show ?thesis by simp
    next
      case F2: False
      then have e: "y = year" "m = k + 1" "d = day - daysBefore k + 1" using res by simp_all
      have b: "0 \<le> k" "k \<le> 11" "2 \<le> k \<longleftrightarrow> 59 \<le> day" using ms F2 by simp_all
      have m1: "m - 1 = k" using e by simp
      have adj: "(isLeap y \<and> 3 \<le> m) \<longleftrightarrow> (isLeap year \<and> yday > 59)"
        using e b False unfolding day_def by (auto split: if_splits)
      have dy: "day = yday - (if isLeap year \<and> yday > 59 then 1 else 0)"
        by (simp add: day_def)
      have "1 \<le> m" "m \<le> 12" using e b by simp_all
      moreover have "daysSinceEpoch y + daysBefore (m - 1)
          + (if isLeap y \<and> 3 \<le> m then 1 else 0) + (d - 1) = n"
        unfolding m1 adj using e(1,3) p(1) dy by simp
      ultimately show ?thesis by simp
    qed
  qed
qed


lemma norm_id: "0 \<le> lo \<Longrightarrow> lo < base \<Longrightarrow> norm hi lo base = (hi, lo)"
  by (simp add: norm_def)

lemma Date_civil:
  assumes ad: "absDate n = (y, m, d)"
    and h: "0 \<le> h" "h < 24" and mi: "0 \<le> mi" "mi < 60"
    and s: "0 \<le> s" "s < 60" and ns: "0 \<le> ns" "ns < 1000000000"
  shows "Date y m (d + k) h mi s ns loc =
           \<lparr>unixNano = zone_adjust loc ((n + k) * 86400 + h * 3600 + mi * 60 + s) * 1000000000 + ns,
            Location = loc\<rparr>"
proof -
  note r = absDate_roundtrip[OF ad]
  have n1: "norm y (m - 1) 12 = (y, m - 1)" using r(1,2) by (intro norm_id) simp_all
  have n2: "norm s ns 1000000000 = (s, ns)" using ns by (rule norm_id)
  have n3: "norm mi s 60 = (mi, s)" using s by (rule norm_id)
  have n4: "norm h mi 60 = (h, mi)" using mi by (rule norm_id)
  have n5: "norm (d + k) h 24 = (d + k, h)" using h by (rule norm_id)
  have dd: "daysSinceEpoch y + daysBefore (m - 1) + (if isLeap y \<and> 3 \<le> m then 1 else 0)
              + (d + k - 1) = n + k"
    using r(3) by simp
  have X: "(daysSinceEpoch y + daysBefore (m - 1 + 1 - 1)
             + (if isLeap y \<and> 3 \<le> m - 1 + 1 then 1 else 0) + (d + k - 1)) * 86400
            + h * 3600 + mi * 60 + s
          = (n + k) * 86400 + h * 3600 + mi * 60 + s"
    using dd by simp
  have "Date y m (d + k) h mi s ns loc =
          \<lparr>unixNano = zone_adjust loc
             ((daysSinceEpoch y + daysBefore (m - 1 + 1 - 1)
               + (if isLeap y \<and> 3 \<le> m - 1 + 1 then 1 else 0) + (d + k - 1)) * 86400
              + h * 3600 + mi * 60 + s) * 1000000000 + ns,
           Location = loc\<rparr>"
    unfolding Date_def n1 n2 n3 n4 n5 Let_def prod.case by simp
  then show ?thesis unfolding X .
qed

lemma clock_range:
  "0 \<le> Hour t" "Hour t < 24" "0 \<le> Minute t" "Minute t < 60" "0 \<le> Second t" "Second t < 60"
  "0 \<le> Nanosecond t" "Nanosecond t < 1000000000"
  unfolding Hour_def Minute_def Second_def Nanosecond_def by simp_all

lemma clock_sum: "Hour t * 3600 + Minute t * 60 + Second t = absSec t mod 86400"
proof -
  define a where "a = absSec t"
  have e1: "(a mod 86400) mod 3600 = a mod 3600" by (simp add: mod_mod_cancel)
  have e2: "(a mod 3600) mod 60 = a mod 60" by (simp add: mod_mod_cancel)
  have "a mod 86400 = (a mod 86400) div 3600 * 3600 + (a mod 86400) mod 3600" by simp
  also have "\<dots> = (a mod 86400) div 3600 * 3600 + a mod 3600" unfolding e1 ..
  also have "a mod 3600 = (a mod 3600) div 60 * 60 + (a mod 3600) mod 60" by simp
  also have "\<dots> = (a mod 3600) div 60 * 60 + a mod 60" unfolding e2 ..
  finally show ?thesis unfolding Hour_def Minute_def Second_def a_def by simp
qed

lemma clock_arith:
  fixes q r A H M S k :: int
  assumes "q * 86400 + r = A" "H * 3600 + M * 60 + S = r"
  shows "(q + k) * 86400 + H * 3600 + M * 60 + S = A + k * 86400"
  using assms by simp

lemma AddDate_days:
  "AddDate t 0 0 k =
     \<lparr>unixNano = zone_adjust (Location t) (absSec t + k * 86400) * 1000000000 + Nanosecond t,
      Location = Location t\<rparr>"
proof -
  obtain y m d where ad: "absDate (absSec t div 86400) = (y, m, d)"
    by (cases "absDate (absSec t div 86400)")
  have ymd: "Year t = y" "Month t = m" "Day t = d" by (simp_all add: Year_def Month_def Day_def ad)
  have "AddDate t 0 0 k = Date y m (d + k) (Hour t) (Minute t) (Second t) (Nanosecond t) (Location t)"
    by (simp add: AddDate_def ymd)
  also have "\<dots> = \<lparr>unixNano = zone_adjust (Location t)
                    ((absSec t div 86400 + k) * 86400 + Hour t * 3600 + Minute t * 60 + Second t)
                    * 1000000000 + Nanosecond t, Location = Location t\<rparr>"
    by (rule Date_civil[OF ad clock_range])
  also have "(absSec t div 86400 + k) * 86400 + Hour t * 3600 + Minute t * 60 + Second t
               = absSec t + k * 86400"
  proof -
    define q r where "q = absSec t div 86400" and "r = absSec t mod 86400"
    have a: "q * 86400 + r = absSec t" unfolding q_def r_def by simp
    have c: "Hour t * 3600 + Minute t * 60 + Second t = r" unfolding r_def by (rule clock_sum)
    have "(q + k) * 86400 + Hour t * 3600 + Minute t * 60 + Second t = absSec t + k * 86400"
      using a c by (rule clock_arith)
    then show ?thesis unfolding q_def .
  qed
  finally show ?thesis .
qed







lemma zone_adjust_UTC: "zone_adjust UTC W = W"
  by (simp add: zone_adjust_def lookup_def UTC_def)

lemma AddDate_days_UTC:
  assumes "Location t = UTC"
  shows "AddDate t 0 0 k = \<lparr>unixNano = unixNano t + k * 86400 * 1000000000, Location = UTC\<rparr>"
proof -
  have a: "absSec t = unixSec t" using assms by (simp add: absSec_def lookup_def UTC_def)
  have "unixSec t * 1000000000 + Nanosecond t = unixNano t"
    by (simp add: unixSec_def Nanosecond_def)
  then have "(unixSec t + k * 86400) * 1000000000 + Nanosecond t
               = unixNano t + k * 86400 * 1000000000"
    by (simp add: algebra_simps)
  then show ?thesis unfolding AddDate_days assms zone_adjust_UTC a by simp
qed


section \<open>The weekday-aware cutoff\<close>

text \<open>A location with one offset for all time is regular and shows every wall-clock
  time.\<close>

lemma regular_FixedZone: "\<bar>offset\<bar> \<le> 86400 \<Longrightarrow> regular (FixedZone offset)"
  by (simp add: regular_def lookup_def FixedZone_def within_def)

lemma shown_FixedZone: "shown (FixedZone offset) wall"
proof -
  have "(wall - offset) + fst (lookup (FixedZone offset) (wall - offset)) = wall"
    by (simp add: lookup_def FixedZone_def)
  then show ?thesis unfolding shown_def by (rule exI)
qed


lemma regular_cairo: "regular cairo"
  unfolding regular_def
proof
  fix u :: int
  show "case lookup cairo u of
          (offset, start, end) \<Rightarrow>
            within start end u \<and> \<bar>offset\<bar> \<le> 86400
            \<and> (start \<noteq> alpha \<and> end \<noteq> omega \<longrightarrow> 2 * 86400 < end - start)
            \<and> (\<forall>v. within start end v \<longrightarrow> lookup cairo v = lookup cairo u)"
    by (cases "u < 1714082400")
       (simp_all add: lookup_def cairo_def within_def alpha_def omega_def)
qed




text \<open>In Cairo no instant reads 00:00 on Friday 2024-04-26.\<close>

lemma cairo_midnight_skipped: "\<not> shown cairo 1714089600"
  unfolding shown_def
proof
  assume "\<exists>u. u + fst (lookup cairo u) = 1714089600"
  then obtain u where u: "u + fst (lookup cairo u) = 1714089600" ..
  show False
  proof (cases "u < 1714082400")
    case True
    then show False using u by (simp add: lookup_def cairo_def)
  next
    case False
    then show False using u by (simp add: lookup_def cairo_def)
  qed
qed




section \<open>The activity filter\<close>

lemma recentRepos_loop_filter:
  "recentRepos_loop c rs acc = acc @ filter (\<lambda>repo. After (Repo_UpdatedAt repo) c) rs"
  by (induction rs arbitrary: acc) simp_all

text \<open>
  Claim C10. For every \<open>daysBack \<le> 0\<close>, \<^verbatim>\<open>GetRecentlyUpdatedRepos\<close> returns the whole
  stored repository list, whatever the update timestamps are.
\<close>

theorem nonpositive_daysBack_returns_all:
  "daysBack \<le> 0 \<Longrightarrow> fst (GetRecentlyUpdatedRepos gh now daysBack) = GitHub_repos gh"
  by (simp add: GetRecentlyUpdatedRepos_def)

text \<open>With \<open>daysBack = 0\<close> the repository updated 10 days before is returned too.\<close>

theorem nonpositive_daysBack_returns_all_witness:
  "(0::int) \<le> 0 \<and> fst (GetRecentlyUpdatedRepos gh_ab noon 0) = [repo_a, repo_b]"
  using nonpositive_daysBack_returns_all[of 0 gh_ab noon] by (simp add: gh_ab_def)

text \<open>
  Claim C2. When \<^verbatim>\<open>GetRecentlyUpdatedRepos\<close> applies a cutoff (\<open>daysBack > 0\<close>), with
  \<open>c\<close> the cutoff instant it computes: it returns exactly the repositories of the stored
  list whose update timestamp is strictly after \<open>c\<close>, in the order of the stored list;
  applied again to its own output with the same cutoff it returns that output; and it
  leaves the stored list as it was.
\<close>

theorem activity_filter:
  assumes "0 < daysBack" and "c = AddDate now 0 0 (- daysBack)"
  shows "fst (GetRecentlyUpdatedRepos gh now daysBack)
           = filter (\<lambda>repo. unixNano c < unixNano (Repo_UpdatedAt repo)) (GitHub_repos gh)
       \<and> fst (GetRecentlyUpdatedRepos
                (gh\<lparr>GitHub_repos := fst (GetRecentlyUpdatedRepos gh now daysBack)\<rparr>) now daysBack)
           = fst (GetRecentlyUpdatedRepos gh now daysBack)
       \<and> snd (GetRecentlyUpdatedRepos gh now daysBack) = gh"
  using assms by (simp add: GetRecentlyUpdatedRepos_def recentRepos_loop_filter After_def)

text \<open>Repositories \<open>a\<close> and \<open>b\<close> updated 2 and 10 days ago, 7 days back: only \<open>a\<close> is
  returned.\<close>

theorem activity_filter_witness:
  "(0::int) < 7 \<and> fst (GetRecentlyUpdatedRepos gh_ab noon 7) = [repo_a]
   \<and> snd (GetRecentlyUpdatedRepos gh_ab noon 7) = gh_ab"
proof -
  have "Location noon = UTC" by (simp add: noon_def)
  then have c: "AddDate noon 0 0 (- 7)
                  = \<lparr>unixNano = unixNano noon + (- 7) * 86400 * 1000000000, Location = UTC\<rparr>"
    by (rule AddDate_days_UTC)
  show ?thesis
    using activity_filter[of 7 "AddDate noon 0 0 (- 7)" noon gh_ab]
    unfolding c by (simp add: gh_ab_def repo_a_def repo_b_def noon_def)
qed

section \<open>Identifiers cut to eight bytes\<close>

lemma latest_commits_loop_panic:
  "(latest_commits_loop env name cs acc = Inl SliceBoundsOutOfRange) \<longleftrightarrow>
     (\<exists>c \<in> set cs. length (CommitResponse_SHA c) < 8)"
  by (induction cs arbitrary: acc) (auto simp: slice_to_def Let_def)

lemma latest_commits_loop_short:
  "latest_commits_loop env name cs acc = Inr acc' \<Longrightarrow>
     (\<forall>c \<in> set acc. length (Commit_SHA c) = 8) \<Longrightarrow> (\<forall>c \<in> set acc'. length (Commit_SHA c) = 8)"
proof (induction cs arbitrary: acc)
  case Nil
  then show ?case by simp
next
  case (Cons c cs)
  show ?case
  proof (cases "length (CommitResponse_SHA c) < 8")
    case True
    then show ?thesis using Cons.prems(1) by (simp add: slice_to_def Let_def)
  next
    case False
    define date where "date = (case parse_RFC3339 env (CommitAuthor_Date (CommitDetails_Author (CommitResponse_Commit c))) of
                    Some t \<Rightarrow> t | None \<Rightarrow> zeroTime)"
    define author where "author = (case CommitResponse_Author c of
                      None \<Rightarrow> CommitAuthor_Name (CommitDetails_Author (CommitResponse_Commit c))
                    | Some login \<Rightarrow> login)"
    define new where "new = \<lparr>Commit_SHA = take 8 (CommitResponse_SHA c),
                  Commit_Message = CommitMessage_Message (CommitDetails_Message (CommitResponse_Commit c)),
                  Commit_Author = author, Commit_Date = date, Commit_RepoName = name,
                  Commit_HTMLURL = CommitResponse_HTMLURL c\<rparr>"
    have step: "latest_commits_loop env name (c # cs) acc = latest_commits_loop env name cs (acc @ [new])"
      using False by (simp add: slice_to_def Let_def new_def date_def author_def)
    have "length (Commit_SHA new) = 8" using False by (simp add: new_def)
    then have "\<forall>x \<in> set (acc @ [new]). length (Commit_SHA x) = 8" using Cons.prems(2) by simp
    moreover have "latest_commits_loop env name cs (acc @ [new]) = Inr acc'"
      using Cons.prems(1) unfolding step .
    ultimately show ?thesis by (rule Cons.IH[rotated])
  qed
qed

lemma latest_repos_loop_panic:
  "(latest_repos_loop env gh since repoNames acc = Inl SliceBoundsOutOfRange) \<longleftrightarrow>
     (\<exists>repoName \<in> set repoNames. \<exists>commits.
        latest_get env \<lparr>latest_username = user_username (GitHub_user gh),
                         latest_name = split_first repoName '' ('', latest_since = since\<rparr>
          = Decoded commits
        \<and> (\<exists>c \<in> set commits. length (CommitResponse_SHA c) < 8))"
proof (induction repoNames arbitrary: acc)
  case Nil
  then show ?case by simp
next
  case (Cons repoName rest)
  let ?q = "\<lparr>latest_username = user_username (GitHub_user gh),
             latest_name = split_first repoName '' ('', latest_since = since\<rparr>"
  show ?case
  proof (cases "latest_get env ?q")
    case (Decoded commits)
    show ?thesis
    proof (cases "latest_commits_loop env (split_first repoName '' ('') commits acc")
      case (Inl p)
      then have "latest_commits_loop env (split_first repoName '' ('') commits acc = Inl SliceBoundsOutOfRange"
        by (cases p) simp
      then show ?thesis
        using Decoded latest_commits_loop_panic[of env "split_first repoName '' (''" commits acc]
        by (auto simp: Let_def)
    next
      case (Inr acc')
      then have "\<not> (\<exists>c \<in> set commits. length (CommitResponse_SHA c) < 8)"
        using latest_commits_loop_panic[of env "split_first repoName '' (''" commits acc] by simp
      then show ?thesis using Decoded Inr Cons.IH[of acc'] by (auto simp: Let_def)
    qed
  qed (use Cons.IH[of acc] in \<open>auto simp: Let_def\<close>)
qed

lemma latest_repos_loop_short:
  "latest_repos_loop env gh since repoNames acc = Inr acc' \<Longrightarrow>
     (\<forall>c \<in> set acc. length (Commit_SHA c) = 8) \<Longrightarrow> (\<forall>c \<in> set acc'. length (Commit_SHA c) = 8)"
proof (induction repoNames arbitrary: acc)
  case Nil
  then show ?case by simp
next
  case (Cons repoName rest)
  let ?q = "\<lparr>latest_username = user_username (GitHub_user gh),
             latest_name = split_first repoName '' ('', latest_since = since\<rparr>"
  show ?case
  proof (cases "latest_get env ?q")
    case (Decoded commits)
    show ?thesis
    proof (cases "latest_commits_loop env (split_first repoName '' ('') commits acc")
      case (Inl p)
      then show ?thesis using Cons.prems(1) Decoded by (simp add: Let_def)
    next
      case (Inr acc1)
      have "\<forall>c \<in> set acc1. length (Commit_SHA c) = 8"
        using latest_commits_loop_short[OF Inr Cons.prems(2)] .
      moreover have "latest_repos_loop env gh since rest acc1 = Inr acc'"
        using Cons.prems(1) Decoded Inr by (simp add: Let_def)
      ultimately show ?thesis using Cons.IH[of acc1] by blast
    qed
  qed (use Cons in \<open>auto simp: Let_def\<close>)
qed

lemma latest_commits_loop_records:
  "latest_commits_loop env name cs acc = Inr acc' \<Longrightarrow>
     map Commit_SHA acc' = map Commit_SHA acc @ map (\<lambda>c. take 8 (CommitResponse_SHA c)) cs"
proof (induction cs arbitrary: acc)
  case Nil
  then show ?case by simp
next
  case (Cons c cs)
  show ?case
  proof (cases "length (CommitResponse_SHA c) < 8")
    case True
    then show ?thesis using Cons.prems by (simp add: slice_to_def Let_def)
  next
    case False
    define date where "date = (case parse_RFC3339 env (CommitAuthor_Date (CommitDetails_Author (CommitResponse_Commit c))) of
                    Some t \<Rightarrow> t | None \<Rightarrow> zeroTime)"
    define author where "author = (case CommitResponse_Author c of
                      None \<Rightarrow> CommitAuthor_Name (CommitDetails_Author (CommitResponse_Commit c))
                    | Some login \<Rightarrow> login)"
    define new where "new = \<lparr>Commit_SHA = take 8 (CommitResponse_SHA c),
                  Commit_Message = CommitMessage_Message (CommitDetails_Message (CommitResponse_Commit c)),
                  Commit_Author = author, Commit_Date = date, Commit_RepoName = name,
                  Commit_HTMLURL = CommitResponse_HTMLURL c\<rparr>"
    have step: "latest_commits_loop env name (c # cs) acc = latest_commits_loop env name cs (acc @ [new])"
      using False by (simp add: slice_to_def Let_def new_def date_def author_def)
    have "latest_commits_loop env name cs (acc @ [new]) = Inr acc'"
      using Cons.prems unfolding step .
    from Cons.IH[OF this] show ?thesis by (simp add: new_def)
  qed
qed

lemma latest_repos_loop_records:
  "latest_repos_loop env gh since repoNames acc = Inr acc' \<Longrightarrow>
     map Commit_SHA acc' =
       map Commit_SHA acc
       @ concat (map (\<lambda>repoName.
            case latest_get env \<lparr>latest_username = user_username (GitHub_user gh),
                                  latest_name = split_first repoName '' ('',
                                  latest_since = since\<rparr> of
              Decoded commits \<Rightarrow> map (\<lambda>c. take 8 (CommitResponse_SHA c)) commits
            | _ \<Rightarrow> []) repoNames)"
proof (induction repoNames arbitrary: acc)
  case Nil
  then show ?case by simp
next
  case (Cons repoName rest)
  let ?q = "\<lparr>latest_username = user_username (GitHub_user gh),
             latest_name = split_first repoName '' ('', latest_since = since\<rparr>"
  show ?case
  proof (cases "latest_get env ?q")
    case (Decoded commits)
    show ?thesis
    proof (cases "latest_commits_loop env (split_first repoName '' ('') commits acc")
      case (Inl p)
      then show ?thesis using Cons.prems Decoded by (simp add: Let_def)
    next
      case (Inr acc1)
      have "latest_repos_loop env gh since rest acc1 = Inr acc'"
        using Cons.prems Decoded Inr by (simp add: Let_def)
      from Cons.IH[OF this] latest_commits_loop_records[OF Inr] show ?thesis
        using Decoded by simp
    qed
  next
    case (NewRequestFailed e)
    then have "latest_repos_loop env gh since rest acc = Inr acc'"
      using Cons.prems by (simp add: Let_def)
    from Cons.IH[OF this] show ?thesis using NewRequestFailed by simp
  next
    case (DoFailed e)
    then have "latest_repos_loop env gh since rest acc = Inr acc'"
      using Cons.prems by (simp add: Let_def)
    from Cons.IH[OF this] show ?thesis using DoFailed by simp
  next
    case (ReadAllFailed e)
    then have "latest_repos_loop env gh since rest acc = Inr acc'"
      using Cons.prems by (simp add: Let_def)
    from Cons.IH[OF this] show ?thesis using ReadAllFailed by simp
  next
    case (UnmarshalFailed e)
    then have "latest_repos_loop env gh since rest acc = Inr acc'"
      using Cons.prems by (simp add: Let_def)
    from Cons.IH[OF this] show ?thesis using UnmarshalFailed by simp
  qed
qed

text \<open>
  Claim C9. \<^verbatim>\<open>GetLatestCommits\<close> cuts every decoded commit identifier to its first 8
  bytes without a guard. The call ends in a slice-bounds panic exactly when the decoded
  response of one of the selected repositories holds an identifier shorter than 8 bytes.
  When every decoded identifier has at least 8 bytes it returns, with a nil error, one
  record for each decoded commit, in the order of the selected repositories and of their
  responses, and the identifier of each record is the first 8 bytes of the decoded
  identifier.
\<close>

theorem short_sha_panics:
  "((GetLatestCommits env gh now repoNames daysBack = Inl SliceBoundsOutOfRange) \<longleftrightarrow>
     (\<exists>repoName \<in> set repoNames. \<exists>commits.
        latest_get env \<lparr>latest_username = user_username (GitHub_user gh),
                         latest_name = split_first repoName '' ('',
                         latest_since = AddDate now 0 0 (- daysBack)\<rparr>
          = Decoded commits
        \<and> (\<exists>c \<in> set commits. length (CommitResponse_SHA c) < 8)))
   \<and> (GetLatestCommits env gh now repoNames daysBack \<noteq> Inl SliceBoundsOutOfRange \<longrightarrow>
        (\<exists>allCommits. GetLatestCommits env gh now repoNames daysBack = Inr (allCommits, None)
            \<and> (\<forall>c \<in> set allCommits. length (Commit_SHA c) = 8)
            \<and> map Commit_SHA allCommits =
                concat (map (\<lambda>repoName.
                  case latest_get env \<lparr>latest_username = user_username (GitHub_user gh),
                                        latest_name = split_first repoName '' ('',
                                        latest_since = AddDate now 0 0 (- daysBack)\<rparr> of
                    Decoded commits \<Rightarrow> map (\<lambda>c. take 8 (CommitResponse_SHA c)) commits
                  | _ \<Rightarrow> []) repoNames)))"
proof -
  let ?loop = "latest_repos_loop env gh (AddDate now 0 0 (- daysBack)) repoNames []"
  have "(GetLatestCommits env gh now repoNames daysBack = Inl SliceBoundsOutOfRange) \<longleftrightarrow>
        (?loop = Inl SliceBoundsOutOfRange)"
    by (simp add: GetLatestCommits_def Let_def split: sum.splits)
  then have first: "(GetLatestCommits env gh now repoNames daysBack = Inl SliceBoundsOutOfRange) \<longleftrightarrow>
     (\<exists>repoName \<in> set repoNames. \<exists>commits.
        latest_get env \<lparr>latest_username = user_username (GitHub_user gh),
                         latest_name = split_first repoName '' ('',
                         latest_since = AddDate now 0 0 (- daysBack)\<rparr>
          = Decoded commits
        \<and> (\<exists>c \<in> set commits. length (CommitResponse_SHA c) < 8))"
    unfolding latest_repos_loop_panic .
  have second: "\<exists>allCommits. GetLatestCommits env gh now repoNames daysBack = Inr (allCommits, None)
            \<and> (\<forall>c \<in> set allCommits. length (Commit_SHA c) = 8)
            \<and> map Commit_SHA allCommits =
                concat (map (\<lambda>repoName.
                  case latest_get env \<lparr>latest_username = user_username (GitHub_user gh),
                                        latest_name = split_first repoName '' ('',
                                        latest_since = AddDate now 0 0 (- daysBack)\<rparr> of
                    Decoded commits \<Rightarrow> map (\<lambda>c. take 8 (CommitResponse_SHA c)) commits
                  | _ \<Rightarrow> []) repoNames)"
    if "GetLatestCommits env gh now repoNames daysBack \<noteq> Inl SliceBoundsOutOfRange"
  proof (cases ?loop)
    case (Inl p)
    then have "GetLatestCommits env gh now repoNames daysBack = Inl SliceBoundsOutOfRange"
      by (cases p) (simp add: GetLatestCommits_def Let_def)
    with that show ?thesis by simp
  next
    case (Inr allCommits)
    have "\<forall>c \<in> set allCommits. length (Commit_SHA c) = 8"
      using latest_repos_loop_short[OF Inr] by simp
    moreover have "GetLatestCommits env gh now repoNames daysBack = Inr (allCommits, None)"
      using Inr by (simp add: GetLatestCommits_def Let_def)
    moreover have "map Commit_SHA allCommits =
                concat (map (\<lambda>repoName.
                  case latest_get env \<lparr>latest_username = user_username (GitHub_user gh),
                                        latest_name = split_first repoName '' ('',
                                        latest_since = AddDate now 0 0 (- daysBack)\<rparr> of
                    Decoded commits \<Rightarrow> map (\<lambda>c. take 8 (CommitResponse_SHA c)) commits
                  | _ \<Rightarrow> []) repoNames)"
      using latest_repos_loop_records[OF Inr] by simp
    ultimately show ?thesis by blast
  qed
  show ?thesis using first second by blast
qed

text \<open>A response whose only commit has the identifier \<open>abc123\<close> makes the call panic;
  a response whose only commit has the identifier \<open>abc123456789\<close> gives one record with
  the identifier \<open>abc12345\<close>.\<close>

theorem short_sha_panics_witness:
  "length (CommitResponse_SHA response_short) < 8
   \<and> GetLatestCommits env_short gh_ab noon [''a (Go) - Updated: 2024-01-13''] 7
       = Inl SliceBoundsOutOfRange
   \<and> GetLatestCommits env_long gh_ab noon [''a (Go) - Updated: 2024-01-13''] 7
       \<noteq> Inl SliceBoundsOutOfRange
   \<and> (\<exists>allCommits.
         GetLatestCommits env_long gh_ab noon [''a (Go) - Updated: 2024-01-13''] 7
           = Inr (allCommits, None)
         \<and> map Commit_SHA allCommits = [''abc12345''])"
proof -
  have short: "GetLatestCommits env_short gh_ab noon [''a (Go) - Updated: 2024-01-13''] 7
       = Inl SliceBoundsOutOfRange"
    using short_sha_panics[of env_short gh_ab noon "[''a (Go) - Updated: 2024-01-13'']" 7]
    by (simp add: env_short_def response_short_def)
  note inst = short_sha_panics[of env_long gh_ab noon "[''a (Go) - Updated: 2024-01-13'']" 7]
  have no_panic: "GetLatestCommits env_long gh_ab noon [''a (Go) - Updated: 2024-01-13''] 7
       \<noteq> Inl SliceBoundsOutOfRange"
    using inst[THEN conjunct1] by (simp add: env_long_def response_long_def)
  from inst[THEN conjunct2, rule_format, OF no_panic]
  obtain allCommits
    where r: "GetLatestCommits env_long gh_ab noon [''a (Go) - Updated: 2024-01-13''] 7
                = Inr (allCommits, None)"
      and m: "map Commit_SHA allCommits =
                concat (map (\<lambda>repoName.
                  case latest_get env_long
                         \<lparr>latest_username = user_username (GitHub_user gh_ab),
                          latest_name = split_first repoName '' ('',
                          latest_since = AddDate noon 0 0 (- 7)\<rparr> of
                    Decoded commits \<Rightarrow> map (\<lambda>c. take 8 (CommitResponse_SHA c)) commits
                  | _ \<Rightarrow> []) [''a (Go) - Updated: 2024-01-13''])"
    by blast
  have shas: "map Commit_SHA allCommits = [''abc12345'']"
    unfolding m by (simp add: env_long_def response_long_def)
  have found: "\<exists>allCommits.
         GetLatestCommits env_long gh_ab noon [''a (Go) - Updated: 2024-01-13''] 7
           = Inr (allCommits, None)
         \<and> map Commit_SHA allCommits = [''abc12345'']"
    by (rule exI[of _ allCommits], rule conjI, rule r, rule shas)
  have shorter: "length (CommitResponse_SHA response_short) < 8"
    by (simp add: response_short_def)
  show ?thesis
    by (rule conjI, rule shorter, rule conjI, rule short, rule conjI, rule no_panic, rule found)
qed

section \<open>Commits from all branches\<close>

lemma unique_loop_marks:
  assumes "marks (acc, m)"
  shows "marks (unique_loop cs (acc, m))
       \<and> github_Commit_SHA ` set (fst (unique_loop cs (acc, m)))
           = github_Commit_SHA ` set acc \<union> github_Commit_SHA ` set cs"
  using assms
proof (induction cs arbitrary: acc m)
  case Nil
  then show ?case by simp
next
  case (Cons c cs)
  show ?case
  proof (cases "m (github_Commit_SHA c)")
    case True
    have "github_Commit_SHA c \<in> github_Commit_SHA ` set acc"
      using True Cons.prems by (simp add: marks_def)
    have step: "unique_loop (c # cs) (acc, m) = unique_loop cs (acc, m)"
      using True by simp
    from Cons.IH[OF Cons.prems]
    have ih1: "marks (unique_loop cs (acc, m))"
      and ih2: "github_Commit_SHA ` set (fst (unique_loop cs (acc, m)))
                  = github_Commit_SHA ` set acc \<union> github_Commit_SHA ` set cs"
      by blast+
    show ?thesis unfolding step
    proof
      show "marks (unique_loop cs (acc, m))" by (rule ih1)
      show "github_Commit_SHA ` set (fst (unique_loop cs (acc, m)))
              = github_Commit_SHA ` set acc \<union> github_Commit_SHA ` set (c # cs)"
        unfolding ih2 using \<open>github_Commit_SHA c \<in> github_Commit_SHA ` set acc\<close> by auto
    qed
  next
    case False
    then have notin: "github_Commit_SHA c \<notin> github_Commit_SHA ` set acc"
      using Cons.prems by (simp add: marks_def)
    have "marks (acc @ [c], m(github_Commit_SHA c := True))"
      using Cons.prems notin by (auto simp: marks_def)
    from Cons.IH[OF this]
    have ih1: "marks (unique_loop cs (acc @ [c], m(github_Commit_SHA c := True)))"
      and ih2: "github_Commit_SHA ` set (fst (unique_loop cs (acc @ [c], m(github_Commit_SHA c := True))))
                  = github_Commit_SHA ` set (acc @ [c]) \<union> github_Commit_SHA ` set cs"
      by blast+
    have step: "unique_loop (c # cs) (acc, m)
                  = unique_loop cs (acc @ [c], m(github_Commit_SHA c := True))"
      using False by simp
    show ?thesis unfolding step
    proof
      show "marks (unique_loop cs (acc @ [c], m(github_Commit_SHA c := True)))" by (rule ih1)
      show "github_Commit_SHA ` set (fst (unique_loop cs (acc @ [c], m(github_Commit_SHA c := True))))
              = github_Commit_SHA ` set acc \<union> github_Commit_SHA ` set (c # cs)"
        unfolding ih2 by auto
    qed
  qed
qed

lemma all_branches_loop_marks:
  assumes "marks (acc, m)"
    and "all_branches_loop env gh repoName since branches (acc, m) = Some (commits, err)"
  shows "err = None \<and> distinct (map github_Commit_SHA commits)
       \<and> github_Commit_SHA ` set commits
           = github_Commit_SHA ` set acc
             \<union> {sha. \<exists>b \<in> set branches. \<exists>cs.
                    GetCommitsForRepoSinceFromBranch env gh repoName since (Branch_Name b) = Some (cs, None)
                    \<and> sha \<in> github_Commit_SHA ` set cs}"
  using assms
proof (induction branches arbitrary: acc m)
  case Nil
  then show ?case by (simp add: marks_def)
next
  case (Cons b rest)
  let ?f = "GetCommitsForRepoSinceFromBranch env gh repoName since (Branch_Name b)"
  show ?case
  proof (cases ?f)
    case None
    then show ?thesis using Cons.prems(2) by simp
  next
    case (Some r)
    obtain cs e where r: "r = (cs, e)" by (cases r)
    show ?thesis
    proof (cases e)
      case None
      obtain acc' m' where u: "unique_loop cs (acc, m) = (acc', m')" by (cases "unique_loop cs (acc, m)")
      have mk: "marks (acc', m')"
        and sh: "github_Commit_SHA ` set acc' = github_Commit_SHA ` set acc \<union> github_Commit_SHA ` set cs"
        using unique_loop_marks[OF Cons.prems(1), of cs] unfolding u by simp_all
      have "all_branches_loop env gh repoName since rest (acc', m') = Some (commits, err)"
        using Cons.prems(2) Some r None u by simp
      from Cons.IH[OF mk this] show ?thesis
        unfolding sh using Some r None by auto
    next
      case (Some er)
      have "all_branches_loop env gh repoName since rest (acc, m) = Some (commits, err)"
        using Cons.prems(2) \<open>?f = Some r\<close> r Some by simp
      from Cons.IH[OF Cons.prems(1) this] show ?thesis
        using \<open>?f = Some r\<close> r Some by auto
    qed
  qed
qed

lemma all_branches_loop_empty:
  assumes "\<forall>b \<in> set branches. \<exists>e.
             GetCommitsForRepoSinceFromBranch env gh repoName since (Branch_Name b) = Some ([], e)"
  shows "all_branches_loop env gh repoName since branches ([], m) = Some ([], None)"
  using assms
proof (induction branches)
  case Nil
  then show ?case by simp
next
  case (Cons b rest)
  then obtain e where "GetCommitsForRepoSinceFromBranch env gh repoName since (Branch_Name b) = Some ([], e)"
    by auto
  then show ?case using Cons by (cases e) auto
qed

lemma commits_pages_returns:
  assumes "last_page (get_commits env
             \<lparr>commits_repo = fullName, commits_page = page + int n, commits_per_page = 100,
              commits_since = (if \<not> IsZero since then Some since else None),
              commits_sha = (if branchName \<noteq> [] then Some branchName else None)\<rparr>)"
  shows "\<exists>r. commits_pages env fullName since branchName page acc = Some r"
  using assms
proof (induction n arbitrary: page acc)
  case 0
  let ?url = "\<lparr>commits_repo = fullName, commits_page = page, commits_per_page = 100,
              commits_since = (if \<not> IsZero since then Some since else None),
              commits_sha = (if branchName \<noteq> [] then Some branchName else None)\<rparr>"
  from 0 have lp: "last_page (get_commits env ?url)" by simp
  show ?case
  proof (cases "get_commits env ?url")
    case (Decoded xs)
    then have "length xs < 100" using lp by (simp add: last_page_def)
    then show ?thesis using Decoded
      by (subst commits_pages.simps) (simp add: Let_def)
  qed (subst commits_pages.simps, simp add: Let_def)+
next
  case (Suc n)
  let ?url = "\<lparr>commits_repo = fullName, commits_page = page, commits_per_page = 100,
              commits_since = (if \<not> IsZero since then Some since else None),
              commits_sha = (if branchName \<noteq> [] then Some branchName else None)\<rparr>"
  have e: "page + int (Suc n) = (page + 1) + int n" by simp
  have next_page: "\<exists>r. commits_pages env fullName since branchName (page + 1) acc' = Some r" for acc'
    by (rule Suc.IH) (use Suc.prems in \<open>simp only: e\<close>)
  show ?case
  proof (cases "get_commits env ?url")
    case (Decoded xs)
    then show ?thesis using next_page[of "acc @ xs"]
      by (subst commits_pages.simps) (simp add: Let_def)
  qed (subst commits_pages.simps, simp add: Let_def)+
qed


lemma branches_pages_returns:
  assumes "last_page (get_branches env
             \<lparr>branches_repo = fullName, branches_page = page + int n, branches_per_page = 100\<rparr>)"
  shows "\<exists>r. branches_pages env fullName page acc = Some r"
  using assms
proof (induction n arbitrary: page acc)
  case 0
  let ?url = "\<lparr>branches_repo = fullName, branches_page = page, branches_per_page = 100\<rparr>"
  from 0 have lp: "last_page (get_branches env ?url)" by simp
  show ?case
  proof (cases "get_branches env ?url")
    case (Decoded xs)
    then have "length xs < 100" using lp by (simp add: last_page_def)
    then show ?thesis using Decoded
      by (subst branches_pages.simps) (simp add: Let_def)
  qed (subst branches_pages.simps, simp add: Let_def)+
next
  case (Suc n)
  let ?url = "\<lparr>branches_repo = fullName, branches_page = page, branches_per_page = 100\<rparr>"
  have e: "page + int (Suc n) = (page + 1) + int n" by simp
  have next_page: "\<exists>r. branches_pages env fullName (page + 1) acc' = Some r" for acc'
    by (rule Suc.IH) (use Suc.prems in \<open>simp only: e\<close>)
  show ?case
  proof (cases "get_branches env ?url")
    case (Decoded xs)
    then show ?thesis using next_page[of "acc @ xs"]
      by (subst branches_pages.simps) (simp add: Let_def)
  qed (subst branches_pages.simps, simp add: Let_def)+
qed

lemma all_branches_loop_returns:
  assumes "\<And>branchName. \<exists>r. GetCommitsForRepoSinceFromBranch env gh repoName since branchName = Some r"
  shows "\<exists>r. all_branches_loop env gh repoName since branches (acc, m) = Some r"
proof (induction branches arbitrary: acc m)
  case Nil
  show ?case by simp
next
  case (Cons b rest)
  obtain cs e where f: "GetCommitsForRepoSinceFromBranch env gh repoName since (Branch_Name b) = Some (cs, e)"
    using assms[of "Branch_Name b"] by auto
  show ?case
  proof (cases e)
    case None
    obtain acc' m' where u: "unique_loop cs (acc, m) = (acc', m')" by (cases "unique_loop cs (acc, m)")
    show ?thesis using Cons[of acc' m'] f None u by simp
  next
    case (Some err)
    show ?thesis using Cons[of acc m] f Some by simp
  qed
qed

lemma all_branches_returns:
  assumes "\<forall>repo. targetRepo gh repoName = Some repo \<longrightarrow>
             (\<exists>n. last_page (get_branches env
                \<lparr>branches_repo = Repo_FullName repo, branches_page = 1 + int n,
                 branches_per_page = 100\<rparr>))
           \<and> (\<forall>branchName. \<exists>n. last_page (get_commits env
                \<lparr>commits_repo = Repo_FullName repo, commits_page = 1 + int n,
                 commits_per_page = 100,
                 commits_since = (if \<not> IsZero since then Some since else None),
                 commits_sha = (if branchName \<noteq> [] then Some branchName else None)\<rparr>))"
  shows "\<exists>commits err. GetCommitsFromAllBranches env gh repoName since = Some (commits, err)"
proof -
  have cr: "\<exists>r. GetCommitsForRepoSinceFromBranch env gh repoName since branchName = Some r" for branchName
  proof (cases "targetRepo gh repoName")
    case None
    then show ?thesis by (simp add: GetCommitsForRepoSinceFromBranch_def)
  next
    case (Some repo)
    obtain n where "last_page (get_commits env
             \<lparr>commits_repo = Repo_FullName repo, commits_page = 1 + int n, commits_per_page = 100,
              commits_since = (if \<not> IsZero since then Some since else None),
              commits_sha = (if branchName \<noteq> [] then Some branchName else None)\<rparr>)"
      using assms Some by blast
    from commits_pages_returns[OF this] show ?thesis
      using Some by (simp add: GetCommitsForRepoSinceFromBranch_def)
  qed
  have br: "\<exists>r. GetBranchesForRepo env gh repoName = Some r"
  proof (cases "targetRepo gh repoName")
    case None
    then show ?thesis by (simp add: GetBranchesForRepo_def)
  next
    case (Some repo)
    obtain n where "last_page (get_branches env
             \<lparr>branches_repo = Repo_FullName repo, branches_page = 1 + int n, branches_per_page = 100\<rparr>)"
      using assms Some by blast
    from branches_pages_returns[OF this] show ?thesis
      using Some by (simp add: GetBranchesForRepo_def)
  qed
  then obtain branches e where bs: "GetBranchesForRepo env gh repoName = Some (branches, e)" by auto
  show ?thesis
  proof (cases e)
    case None
    obtain r where "all_branches_loop env gh repoName since branches ([], \<lambda>sha. False) = Some r"
      using all_branches_loop_returns[of env gh repoName since branches "[]" "\<lambda>sha. False", OF cr]
      by blast
    then show ?thesis using bs None by (cases r) (simp add: GetCommitsFromAllBranches_def)
  next
    case (Some err)
    then show ?thesis using bs by (simp add: GetCommitsFromAllBranches_def)
  qed
qed

lemma all_branches_distinct:
  assumes "GetCommitsFromAllBranches env gh repoName since = Some (commits, err)"
  shows "distinct (map github_Commit_SHA commits)
       \<and> (\<forall>branches. GetBranchesForRepo env gh repoName = Some (branches, None) \<longrightarrow>
            err = None
            \<and> github_Commit_SHA ` set commits
               = {sha. \<exists>b \<in> set branches. \<exists>cs.
                    GetCommitsForRepoSinceFromBranch env gh repoName since (Branch_Name b) = Some (cs, None)
                    \<and> sha \<in> github_Commit_SHA ` set cs})"
proof (cases "GetBranchesForRepo env gh repoName")
  case None
  then show ?thesis using assms by (simp add: GetCommitsFromAllBranches_def)
next
  case (Some r)
  obtain branches e where r: "r = (branches, e)" by (cases r)
  show ?thesis
  proof (cases e)
    case (Some er)
    then show ?thesis using assms \<open>GetBranchesForRepo env gh repoName = Some r\<close> r
      by (auto simp: GetCommitsFromAllBranches_def)
  next
    case None
    have m0: "marks ([], \<lambda>sha. False)" by (simp add: marks_def)
    have "all_branches_loop env gh repoName since branches ([], \<lambda>sha. False) = Some (commits, err)"
      using assms \<open>GetBranchesForRepo env gh repoName = Some r\<close> r None
      by (simp add: GetCommitsFromAllBranches_def)
    from all_branches_loop_marks[OF m0 this] show ?thesis
      using \<open>GetBranchesForRepo env gh repoName = Some r\<close> r None by simp
  qed
qed

text \<open>
  Claim C1. When the listings of the repository come to an end (the branch listing and,
  for every branch, the commit listing reach a page of fewer than 100 entries or a
  failure), \<^verbatim>\<open>GetCommitsFromAllBranches\<close> returns. Whatever the platform answers, a
  sequence that it returns holds no commit identifier twice; and when the branch listing
  succeeds, the identifiers of the returned sequence are exactly the identifiers listed
  for some branch whose commit listing succeeded, so that a commit listed for two or more
  branches contributes one record.
\<close>

theorem all_branches_unique:
  "((\<forall>repo. targetRepo gh repoName = Some repo \<longrightarrow>
        (\<exists>n. last_page (get_branches env
           \<lparr>branches_repo = Repo_FullName repo, branches_page = 1 + int n,
            branches_per_page = 100\<rparr>))
      \<and> (\<forall>branchName. \<exists>n. last_page (get_commits env
           \<lparr>commits_repo = Repo_FullName repo, commits_page = 1 + int n,
            commits_per_page = 100,
            commits_since = (if \<not> IsZero since then Some since else None),
            commits_sha = (if branchName \<noteq> [] then Some branchName else None)\<rparr>)))
    \<longrightarrow> (\<exists>commits err. GetCommitsFromAllBranches env gh repoName since = Some (commits, err)))
   \<and> (\<forall>commits err. GetCommitsFromAllBranches env gh repoName since = Some (commits, err) \<longrightarrow>
        distinct (map github_Commit_SHA commits)
        \<and> (\<forall>branches. GetBranchesForRepo env gh repoName = Some (branches, None) \<longrightarrow>
             err = None
             \<and> github_Commit_SHA ` set commits
                = {sha. \<exists>b \<in> set branches. \<exists>cs.
                     GetCommitsForRepoSinceFromBranch env gh repoName since (Branch_Name b)
                       = Some (cs, None)
                     \<and> sha \<in> github_Commit_SHA ` set cs}))"
  using all_branches_returns[of gh repoName env since]
    all_branches_distinct[of env gh repoName since]
  by blast

text \<open>
  On a platform whose listings end after the first page, the call returns; the commit
  \<open>abc123\<close> is listed for \<open>main\<close> and for \<open>dev\<close> and is returned once.
\<close>

theorem all_branches_unique_witness:
  "(\<exists>commits err. GetCommitsFromAllBranches env_two_branches gh_r ''r'' noon = Some (commits, err))
   \<and> GetCommitsFromAllBranches env_two_branches gh_r ''r'' noon
       = Some ([commit_of ''m1'' ''on main'', commit_of ''abc123'' ''fix bug'',
                commit_of ''d1'' ''on dev''], None)
   \<and> distinct (map github_Commit_SHA
        [commit_of ''m1'' ''on main'', commit_of ''abc123'' ''fix bug'', commit_of ''d1'' ''on dev''])"
proof -
  have ends: "\<forall>repo. targetRepo gh_r ''r'' = Some repo \<longrightarrow>
        (\<exists>n. last_page (get_branches env_two_branches
           \<lparr>branches_repo = Repo_FullName repo, branches_page = 1 + int n,
            branches_per_page = 100\<rparr>))
      \<and> (\<forall>branchName. \<exists>n. last_page (get_commits env_two_branches
           \<lparr>commits_repo = Repo_FullName repo, commits_page = 1 + int n,
            commits_per_page = 100,
            commits_since = (if \<not> IsZero noon then Some noon else None),
            commits_sha = (if branchName \<noteq> [] then Some branchName else None)\<rparr>))"
  proof (intro allI impI conjI)
    fix repo
    show "\<exists>n. last_page (get_branches env_two_branches
           \<lparr>branches_repo = Repo_FullName repo, branches_page = 1 + int n,
            branches_per_page = 100\<rparr>)"
      by (rule exI[of _ 1]) (simp add: env_two_branches_def last_page_def)
    fix branchName
    show "\<exists>n. last_page (get_commits env_two_branches
           \<lparr>commits_repo = Repo_FullName repo, commits_page = 1 + int n,
            commits_per_page = 100,
            commits_since = (if \<not> IsZero noon then Some noon else None),
            commits_sha = (if branchName \<noteq> [] then Some branchName else None)\<rparr>)"
      by (rule exI[of _ 1]) (simp add: env_two_branches_def last_page_def)
  qed
  have run: "GetCommitsFromAllBranches env_two_branches gh_r ''r'' noon
     = Some ([commit_of ''m1'' ''on main'', commit_of ''abc123'' ''fix bug'',
              commit_of ''d1'' ''on dev''], None)"
    by (simp add: GetCommitsFromAllBranches_def GetBranchesForRepo_def
          GetCommitsForRepoSinceFromBranch_def targetRepo_def gh_r_def branches_pages.simps
          commits_pages.simps env_two_branches_def branch_of_def commit_of_def)
  note inst = all_branches_unique[of gh_r "''r''" env_two_branches noon]
  have returns: "\<exists>commits err. GetCommitsFromAllBranches env_two_branches gh_r ''r'' noon
                   = Some (commits, err)"
    using inst[THEN conjunct1] ends by blast
  have "distinct (map github_Commit_SHA
        [commit_of ''m1'' ''on main'', commit_of ''abc123'' ''fix bug'', commit_of ''d1'' ''on dev''])"
    using inst[THEN conjunct2] run by blast
  then show ?thesis using returns run by blast
qed

text \<open>
  Claim C7. When the branch listing of the repository returns no branch, and when it
  returns branches whose commit listings all return no commit,
  \<^verbatim>\<open>GetCommitsFromAllBranches\<close> returns the empty sequence with a nil error.
\<close>

theorem no_branches_or_no_commits:
  "(GetBranchesForRepo env gh repoName = Some ([], None) \<longrightarrow>
      GetCommitsFromAllBranches env gh repoName since = Some ([], None))
   \<and> (GetBranchesForRepo env gh repoName = Some (branches, None)
       \<and> (\<forall>b \<in> set branches.
             GetCommitsForRepoSinceFromBranch env gh repoName since (Branch_Name b) = Some ([], None))
       \<longrightarrow> GetCommitsFromAllBranches env gh repoName since = Some ([], None))"
proof -
  have "GetCommitsFromAllBranches env gh repoName since = Some ([], None)"
    if b: "GetBranchesForRepo env gh repoName = Some (bs, None)"
      and c: "\<forall>b \<in> set bs.
             GetCommitsForRepoSinceFromBranch env gh repoName since (Branch_Name b) = Some ([], None)"
    for bs
  proof -
    have "\<forall>b \<in> set bs. \<exists>e.
             GetCommitsForRepoSinceFromBranch env gh repoName since (Branch_Name b) = Some ([], e)"
      using c by blast
    from all_branches_loop_empty[OF this] show ?thesis
      using b by (simp add: GetCommitsFromAllBranches_def)
  qed
  from this[of "[]"] this[of branches] show ?thesis by simp
qed

text \<open>A repository without branches, and one with two branches without commits.\<close>

theorem no_branches_or_no_commits_witness:
  "GetBranchesForRepo env_no_branches gh_r ''r'' = Some ([], None)
   \<and> GetCommitsFromAllBranches env_no_branches gh_r ''r'' noon = Some ([], None)
   \<and> GetBranchesForRepo env_no_commits gh_r ''r''
       = Some ([branch_of ''main'' ''m1'', branch_of ''dev'' ''d1''], None)
   \<and> GetCommitsFromAllBranches env_no_commits gh_r ''r'' noon = Some ([], None)"
proof -
  have b0: "GetBranchesForRepo env_no_branches gh_r ''r'' = Some ([], None)"
    by (simp add: GetBranchesForRepo_def targetRepo_def gh_r_def branches_pages.simps
          env_no_branches_def)
  have b2: "GetBranchesForRepo env_no_commits gh_r ''r''
              = Some ([branch_of ''main'' ''m1'', branch_of ''dev'' ''d1''], None)"
    by (simp add: GetBranchesForRepo_def targetRepo_def gh_r_def branches_pages.simps
          env_no_commits_def)
  have c2: "\<forall>b \<in> set [branch_of ''main'' ''m1'', branch_of ''dev'' ''d1''].
              GetCommitsForRepoSinceFromBranch env_no_commits gh_r ''r'' noon (Branch_Name b)
                = Some ([], None)"
    by (simp add: GetCommitsForRepoSinceFromBranch_def targetRepo_def gh_r_def
          commits_pages.simps env_no_commits_def)
  show ?thesis
    using no_branches_or_no_commits[of env_no_branches gh_r "''r''" noon "[]"]
      no_branches_or_no_commits[of env_no_commits gh_r "''r''" noon
        "[branch_of ''main'' ''m1'', branch_of ''dev'' ''d1'']"]
      b0 b2 c2
    by blast
qed

section \<open>The summary generator\<close>

text \<open>
  Claim C4. \<^verbatim>\<open>GenerateSummary\<close> on the empty commit list returns the string
  "No commits found in the specified time period." with a nil error, and has sent no
  request when it returns.
\<close>

theorem empty_commits_no_request:
  "GenerateSummary env llm keys [] =
     ((''No commits found in the specified time period.'', None), [])"
  by (simp add: GenerateSummary_def)

theorem empty_commits_no_request_witness:
  "GenerateSummary (env_answering answer_empty_text) llm_1 [] [] =
     ((''No commits found in the specified time period.'', None), [])"
  by (rule empty_commits_no_request)

text \<open>
  Claim C5, as stated, fails: when the first candidate's first part carries the empty
  text, \<^verbatim>\<open>GenerateSummary\<close> returns the empty string, not the fallback string.
\<close>

theorem empty_text_counterexample:
  "GeminiPart_Text (hd (GeminiContent_Parts (GeminiCandidate_Content
       (hd (GeminiResponse_Candidates answer_empty_text))))) = ''''
   \<and> fst (GenerateSummary (env_answering answer_empty_text) llm_1 [''a''] [commit_1]) = ('''', None)
   \<and> fst (GenerateSummary (env_answering answer_empty_text) llm_1 [''a''] [commit_1])
       \<noteq> (''Unable to generate summary at this time.'', None)"
  by (simp add: GenerateSummary_def env_answering_def answer_empty_text_def commit_1_def)

text \<open>
  Claim C5, amended. For every non-empty commit list, if every library call succeeds and
  the decoded response has zero candidates, or its first candidate has zero parts,
  \<^verbatim>\<open>GenerateSummary\<close> returns the string "Unable to generate summary at this time."
  with a nil error; if the first candidate has a part, the text of its first part is
  returned as it is, with a nil error.
\<close>

theorem fallback_without_candidate_part:
  assumes "commits \<noteq> []"
    and "json_Marshal env
           \<lparr>GeminiRequest_Contents =
              [\<lparr>GeminiContent_Parts = [\<lparr>GeminiPart_Text = prompt keys commits\<rparr>]\<rparr>]\<rparr> = Inr jsonData"
    and "http_NewRequest env ''POST'' (geminiAPIURL @ LLMService_apiKey llm) jsonData = None"
    and "client_Do env \<lparr>request_method = ''POST'', request_url = geminiAPIURL @ LLMService_apiKey llm,
                         request_content_type = ''application/json'',
                         request_body = jsonData\<rparr> = Inr resp"
    and "io_ReadAll env resp = Inr body"
    and "json_Unmarshal env body = Inr geminiResp"
  shows "fst (GenerateSummary env llm keys commits) =
           (case GeminiResponse_Candidates geminiResp of
              [] \<Rightarrow> (''Unable to generate summary at this time.'', None)
            | candidate # _ \<Rightarrow>
                (case GeminiContent_Parts (GeminiCandidate_Content candidate) of
                   [] \<Rightarrow> (''Unable to generate summary at this time.'', None)
                 | part # _ \<Rightarrow> (GeminiPart_Text part, None)))"
  using assms by (simp add: GenerateSummary_def Let_def split: list.splits)

theorem fallback_without_candidate_part_witness:
  "fst (GenerateSummary (env_answering answer_no_candidates) llm_1 [''a''] [commit_1])
     = (''Unable to generate summary at this time.'', None)"
  using fallback_without_candidate_part[of "[commit_1]" "env_answering answer_no_candidates"
          "[''a'']" "''{}''" llm_1 "''{}''" "''{}''" answer_no_candidates]
  by (simp add: env_answering_def answer_no_candidates_def)

lemma commit_lines_loop_concat:
  "commit_lines_loop cs b = b @ concat (map commit_line cs)"
  by (induction cs arbitrary: b) simp_all

lemma repos_loop_concat:
  "repos_loop m ks b =
     b @ concat (map (\<lambda>repoName. ''Repository: '' @ repoName @ ''\<newline>''
                        @ concat (map commit_line (lookup_commits m repoName)) @ ''\<newline>'') ks)"
  by (induction ks arbitrary: b) (simp_all add: commit_lines_loop_concat)

lemma lookup_group_loop:
  "lookup_commits (group_loop cs m) k
     = lookup_commits m k @ filter (\<lambda>c. Commit_RepoName c = k) cs"
  by (induction cs arbitrary: m) (simp_all add: lookup_commits_def)

lemma dom_group_loop: "dom (group_loop cs m) = dom m \<union> Commit_RepoName ` set cs"
  by (induction cs arbitrary: m) auto

lemma commitDetails_concat:
  "commitDetails keys commits =
     ''Recent commits summary:\<newline>\<newline>''
     @ concat (map (\<lambda>repoName.
           ''Repository: '' @ repoName @ ''\<newline>''
           @ concat (map commit_line (filter (\<lambda>c. Commit_RepoName c = repoName) commits))
           @ ''\<newline>'') keys)"
proof -
  have "lookup_commits (group_loop commits Map.empty) k
          = filter (\<lambda>c. Commit_RepoName c = k) commits" for k
    unfolding lookup_group_loop by (simp add: lookup_commits_def)
  then show ?thesis unfolding commitDetails_def repos_loop_concat by simp
qed

lemma Format_minute_noon: "Format_minute noon = ''2024-01-15 12:00''"
  by code_simp

lemma commitDetails_a_b:
  "commitDetails [''a'', ''b''] [commit_1, commit_2] =
     ''Recent commits summary:\<newline>\<newline>''
     @ ''Repository: a\<newline>- abc12345: fix bug (by ann on 2024-01-15 12:00)\<newline>\<newline>''
     @ ''Repository: b\<newline>- def67890: add feature (by bob on 2024-01-15 12:00)\<newline>\<newline>''"
  unfolding commitDetails_concat
  by (simp add: commit_line_def commit_1_def commit_2_def Format_minute_noon)

lemma commitDetails_b_a:
  "commitDetails [''b'', ''a''] [commit_1, commit_2] =
     ''Recent commits summary:\<newline>\<newline>''
     @ ''Repository: b\<newline>- def67890: add feature (by bob on 2024-01-15 12:00)\<newline>\<newline>''
     @ ''Repository: a\<newline>- abc12345: fix bug (by ann on 2024-01-15 12:00)\<newline>\<newline>''"
  unfolding commitDetails_concat
  by (simp add: commit_line_def commit_1_def commit_2_def Format_minute_noon)

lemma range_order_a_b:
  "range_order (group_loop [commit_1, commit_2] Map.empty) [''a'', ''b'']"
  by (auto simp: range_order_def commit_1_def commit_2_def)

lemma range_order_b_a:
  "range_order (group_loop [commit_1, commit_2] Map.empty) [''b'', ''a'']"
  by (auto simp: range_order_def commit_1_def commit_2_def)

text \<open>
  Claim C8, as stated, fails. For the commits of repository \<open>a\<close> and then \<open>b\<close>, ranging
  over the map in the order \<open>b\<close>, \<open>a\<close> is an execution of the loop as well as ranging in
  the order \<open>a\<close>, \<open>b\<close>. In the first the digest lists \<open>b\<close> before \<open>a\<close>, against the order
  of first appearance, and the two invocations send different prompts.
\<close>

theorem range_order_counterexample:
  "range_order (group_loop [commit_1, commit_2] Map.empty) [''a'', ''b'']
   \<and> range_order (group_loop [commit_1, commit_2] Map.empty) [''b'', ''a'']
   \<and> map request_body (snd (GenerateSummary env_echo llm_1 [''a'', ''b''] [commit_1, commit_2]))
       = [prompt [''a'', ''b''] [commit_1, commit_2]]
   \<and> map request_body (snd (GenerateSummary env_echo llm_1 [''b'', ''a''] [commit_1, commit_2]))
       = [prompt [''b'', ''a''] [commit_1, commit_2]]
   \<and> prompt [''a'', ''b''] [commit_1, commit_2] \<noteq> prompt [''b'', ''a''] [commit_1, commit_2]
   \<and> commitDetails [''b'', ''a''] [commit_1, commit_2] =
        ''Recent commits summary:\<newline>\<newline>''
        @ ''Repository: b\<newline>- def67890: add feature (by bob on 2024-01-15 12:00)\<newline>\<newline>''
        @ ''Repository: a\<newline>- abc12345: fix bug (by ann on 2024-01-15 12:00)\<newline>\<newline>''"
proof -
  have sent: "map request_body (snd (GenerateSummary env_echo llm_1 keys [commit_1, commit_2]))
       = [prompt keys [commit_1, commit_2]]" for keys
    by (simp add: GenerateSummary_def env_echo_def answer_no_candidates_def Let_def)
  have differ: "prompt [''a'', ''b''] [commit_1, commit_2] \<noteq> prompt [''b'', ''a''] [commit_1, commit_2]"
    unfolding prompt_def commitDetails_a_b commitDetails_b_a by simp
  show ?thesis
    using range_order_a_b range_order_b_a sent differ commitDetails_b_a by simp
qed

text \<open>
  Claim C8, amended. For every commit list and every order \<open>keys\<close> in which an execution
  ranges over the map of the groups, the digest has one group for each repository name
  of the list, every name once, in the order \<open>keys\<close>, and each group lists the commits of
  its repository in the order of the list. The prompt is a function of the commit list
  and of that order.
\<close>

theorem digest_in_range_order:
  assumes "range_order (group_loop commits Map.empty) keys"
  shows "commitDetails keys commits =
           ''Recent commits summary:\<newline>\<newline>''
           @ concat (map (\<lambda>repoName.
                 ''Repository: '' @ repoName @ ''\<newline>''
                 @ concat (map commit_line (filter (\<lambda>c. Commit_RepoName c = repoName) commits))
                 @ ''\<newline>'') keys)
       \<and> distinct keys \<and> set keys = Commit_RepoName ` set commits"
proof -
  have "distinct keys" "set keys = Commit_RepoName ` set commits"
    using assms unfolding range_order_def dom_group_loop by simp_all
  then show ?thesis using commitDetails_concat[of keys commits] by simp
qed

theorem digest_in_range_order_witness:
  "range_order (group_loop [commit_1, commit_2] Map.empty) [''b'', ''a'']
   \<and> commitDetails [''b'', ''a''] [commit_1, commit_2] =
        ''Recent commits summary:\<newline>\<newline>''
        @ concat (map (\<lambda>repoName.
              ''Repository: '' @ repoName @ ''\<newline>''
              @ concat (map commit_line
                         (filter (\<lambda>c. Commit_RepoName c = repoName) [commit_1, commit_2]))
              @ ''\<newline>'') [''b'', ''a''])
   \<and> set [''b'', ''a''] = Commit_RepoName ` set [commit_1, commit_2]"
  using digest_in_range_order[OF range_order_b_a] range_order_b_a by simp

section \<open>Repositories with recent commits\<close>

text \<open>
  Claim C6. The check of \<^verbatim>\<open>hasCommitsSince\<close> sends one commit listing that names no
  branch, which the platform answers for the default branch. A candidate repository
  whose only commit since the cutoff is on the branch \<open>dev\<close> is left out of the report:
  the listing of \<open>dev\<close> holds the commit, the check answers \<^verbatim>\<open>false\<close>, and
  \<^verbatim>\<open>GetRepositoriesWithRecentCommits\<close> returns no repository.
\<close>

theorem commit_on_other_branch_missed:
  "Repositories_ListCommits env_dev_only ''u'' ''r''
       \<lparr>CommitsListOptions_SHA = ''dev'', CommitsListOptions_Since = noon,
        CommitsListOptions_Page = 0, CommitsListOptions_PerPage = 100\<rparr>
     = ([\<lparr>RepositoryCommit_SHA = ''d1''\<rparr>], None)
   \<and> fst (client_repo env_dev_only ''u'' noon) = [info_r]
   \<and> hasCommitsSince env_dev_only (RepositoryInfo_FullName info_r) noon = (False, None)
   \<and> GetRepositoriesWithRecentCommits env_dev_only [''u/r''] ''u'' noon = ([], None)"
  by (simp add: env_dev_only_def info_r_def hasCommitsSince_def parseRepoName_def
        GetRepositoriesWithRecentCommits_def Let_def)

end
